theory Spec2Isabelle
  imports Main "HOL-Library.Multiset" "HOL-Library.AList"
begin

section \<open>Data model of \<^verbatim>\<open>scheduler.py\<close>\<close>

text \<open>
  A calendar date is its proleptic Gregorian day number (what Python's
  \<^verbatim>\<open>date.toordinal()\<close> returns; day 1 is Monday 0001-01-01), so that
  \<^verbatim>\<open>date + timedelta(days=i)\<close> is integer addition. The ISO rendering
  \<^verbatim>\<open>strftime("%Y-%m-%d")\<close> is one-to-one on dates; the dictionaries the source keys
  by that string are keyed by the date itself here. Date strings reach the model already
  parsed. Python's dates run from day 1 to day 3652059 (9999-12-31) and a
  \<^verbatim>\<open>timedelta\<close> holds at most 999999999 days; an addition that leaves either
  range raises \<^verbatim>\<open>OverflowError\<close>.
\<close>

type_synonym date = int

definition date_min :: date where
  "date_min = 1"

definition date_max :: date where
  "date_max = 3652059"

datatype py_error = OverflowError

text \<open>\<^verbatim>\<open>d + timedelta(days=k)\<close>\<close>

definition date_add :: "date \<Rightarrow> int \<Rightarrow> py_error + date" where
  "date_add d k =
     (if 999999999 < \<bar>k\<bar> then Inl OverflowError
      else if d + k < date_min \<or> date_max < d + k then Inl OverflowError
      else Inr (d + k))"

definition weekday :: "date \<Rightarrow> int" where
  "weekday d = (d + 6) mod 7"

record StaffMember =
  name :: string
  role :: string
  target_shifts :: int
  unavailable_days :: "date list"

record OnCallScheduler =
  staff_members :: "StaffMember list"
  start_date :: date
  num_days :: int
  end_date :: date
  dates :: "date list"
  date_to_index :: "date \<rightharpoonup> nat"
  junior_indices :: "nat list"
  intermediate_indices :: "nat list"
  senior_indices :: "nat list"
  weekend_day_indices :: "nat list"
  friday_day_indices :: "nat list"

text \<open>\<^verbatim>\<open>[i for i, s in enumerate(staff_members) if s.role == r]\<close>\<close>

definition role_indices :: "string \<Rightarrow> StaffMember list \<Rightarrow> nat list" where
  "role_indices r staff = filter (\<lambda>i. role (staff ! i) = r) [0..<length staff]"

text \<open>
  The object \<^verbatim>\<open>OnCallScheduler.__init__\<close> leaves behind when none of its date
  additions overflows. \<^verbatim>\<open>range(num_days)\<close> is empty for a non-positive
  \<^verbatim>\<open>num_days\<close>; the constructor checks no range. The dictionary comprehension for
  \<^verbatim>\<open>date_to_index\<close> lets a later index win.
\<close>

definition OnCallScheduler_init :: "StaffMember list \<Rightarrow> date \<Rightarrow> int \<Rightarrow> OnCallScheduler" where
  "OnCallScheduler_init staff start n =
     (let ds = map (\<lambda>i. start + int i) [0..<nat n] in
      \<lparr> staff_members = staff,
        start_date = start,
        num_days = n,
        end_date = start + (n - 1),
        dates = ds,
        date_to_index = map_of (rev (zip ds [0..<length ds])),
        junior_indices = role_indices ''Junior'' staff,
        intermediate_indices = role_indices ''Intermediate'' staff,
        senior_indices = role_indices ''Senior'' staff,
        weekend_day_indices =
          filter (\<lambda>idx. weekday (ds ! idx) = 5 \<or> weekday (ds ! idx) = 6) [0..<length ds],
        friday_day_indices =
          filter (\<lambda>idx. \<not> (weekday (ds ! idx) = 5 \<or> weekday (ds ! idx) = 6) \<and> weekday (ds ! idx) = 4)
            [0..<length ds] \<rparr>)"

text \<open>
  The constructor call \<^verbatim>\<open>OnCallScheduler(staff_members, start_date, num_days)\<close> with
  its failures: \<^verbatim>\<open>end_date\<close> is computed first (line 45), then every date of the block
  (lines 48 to 51); the first addition that overflows raises.
\<close>

fun block_dates :: "date \<Rightarrow> nat list \<Rightarrow> py_error + date list" where
  "block_dates start [] = Inr []"
| "block_dates start (i # is) =
     (case date_add start (int i) of
        Inl e \<Rightarrow> Inl e
      | Inr d \<Rightarrow> (case block_dates start is of Inl e \<Rightarrow> Inl e | Inr ds \<Rightarrow> Inr (d # ds)))"

definition OnCallScheduler_new :: "StaffMember list \<Rightarrow> date \<Rightarrow> int \<Rightarrow> py_error + OnCallScheduler" where
  "OnCallScheduler_new staff start n =
     (case date_add start (n - 1) of
        Inl e \<Rightarrow> Inl e
      | Inr last_day \<Rightarrow>
          (case block_dates start [0..<nat n] of
             Inl e \<Rightarrow> Inl e
           | Inr ds \<Rightarrow> Inr ((OnCallScheduler_init staff start n)\<lparr>end_date := last_day, dates := ds\<rparr>)))"

text \<open>
  The entry point \<^verbatim>\<open>POST /api/schedule/generate\<close> of \<^verbatim>\<open>main.py\<close>, up to the
  scheduler object it builds. The request is parsed into \<^verbatim>\<open>ScheduleRequest\<close> first:
  \<^verbatim>\<open>num_days\<close> is declared \<^verbatim>\<open>Field(default=28, ge=7, le=90)\<close> and every
  \<^verbatim>\<open>target_shifts\<close> is declared \<^verbatim>\<open>Field(..., ge=1)\<close>, and a request outside
  these bounds is refused (status 422) before the body of the handler runs. The handler
  then checks the role strings, the Senior for a Junior and the number of staff (status
  400 each) and constructs the scheduler; an exception of the constructor becomes status
  500. The checks of the date strings have no counterpart here.
\<close>

datatype detail = InvalidRole | MissingSenior | InsufficientStaff

datatype http_error = Unprocessable | BadRequest detail | InternalServerError

definition valid_roles :: "string list" where
  "valid_roles = [''Junior'', ''Intermediate'', ''Senior'']"

definition endpoint_scheduler :: "StaffMember list \<Rightarrow> date \<Rightarrow> int \<Rightarrow> http_error + OnCallScheduler" where
  "endpoint_scheduler staff start n =
     (if \<not> (7 \<le> n \<and> n \<le> 90) \<or> \<not> list_all (\<lambda>st. 1 \<le> target_shifts st) staff
      then Inl Unprocessable
      else if \<not> list_all (\<lambda>st. role st \<in> set valid_roles) staff
      then Inl (BadRequest InvalidRole)
      else if list_ex (\<lambda>st. role st = ''Junior'') staff \<and> \<not> list_ex (\<lambda>st. role st = ''Senior'') staff
      then Inl (BadRequest MissingSenior)
      else if length staff < 2
      then Inl (BadRequest InsufficientStaff)
      else (case OnCallScheduler_new staff start n of
              Inl e \<Rightarrow> Inl InternalServerError
            | Inr scheduler \<Rightarrow> Inr scheduler))"

section \<open>The constraint model handed to CP-SAT\<close>

text \<open>
  The model is data: the variables with their domains and the posted constraints, in
  posting order. Variables carry the names the source gives them
  (\<^verbatim>\<open>shift_s{s}_d{d}\<close>, \<^verbatim>\<open>pair_d{d}\<close>, \<^verbatim>\<open>min_weekend\<close>, ...).
\<close>

datatype var = Shift nat nat | IsPair nat | MinWeekend | MaxWeekend | MinFriday | MaxFriday

datatype expr = V var | C int | SumOf "var list" | Plus expr expr | Minus expr expr

datatype rel = GE | LE | EQ

text \<open>
  \<^verbatim>\<open>model.Add(lhs rel rhs)\<close>, with the literal of \<^verbatim>\<open>OnlyEnforceIf\<close> when there is one:
  \<open>(b, True)\<close> is the Boolean variable \<open>b\<close>, \<open>(b, False)\<close> is \<^verbatim>\<open>b.Not()\<close>.
\<close>

datatype constr = Constr expr rel expr "(var \<times> bool) option"

record cp_model =
  variables :: "(var \<times> int \<times> int) list"
  constraints :: "constr list"

type_synonym valuation = "var \<Rightarrow> int"

fun eval :: "valuation \<Rightarrow> expr \<Rightarrow> int" where
  "eval v (V x) = v x"
| "eval v (C c) = c"
| "eval v (SumOf xs) = sum_list (map v xs)"
| "eval v (Plus a b) = eval v a + eval v b"
| "eval v (Minus a b) = eval v a - eval v b"

fun compare :: "rel \<Rightarrow> int \<Rightarrow> int \<Rightarrow> bool" where
  "compare GE a b = (a \<ge> b)"
| "compare LE a b = (a \<le> b)"
| "compare EQ a b = (a = b)"

fun holds :: "valuation \<Rightarrow> constr \<Rightarrow> bool" where
  "holds v (Constr l r e None) = compare r (eval v l) (eval v e)"
| "holds v (Constr l r e (Some (b, pol))) =
     (if (v b = 1) = pol then compare r (eval v l) (eval v e) else True)"

definition in_domain :: "valuation \<Rightarrow> var \<times> int \<times> int \<Rightarrow> bool" where
  "in_domain v d = (case d of (x, lo, hi) \<Rightarrow> lo \<le> v x \<and> v x \<le> hi)"

definition satisfies :: "cp_model \<Rightarrow> valuation \<Rightarrow> bool" where
  "satisfies m v = (list_all (in_domain v) (variables m) \<and> list_all (holds v) (constraints m))"

subsection \<open>Model builder: the first half of \<^verbatim>\<open>generate_schedule\<close>\<close>

definition num_staff :: "OnCallScheduler \<Rightarrow> nat" where
  "num_staff sch = length (staff_members sch)"

definition day_range :: "OnCallScheduler \<Rightarrow> nat list" where
  "day_range sch = [0..<nat (num_days sch)]"

definition shift_vars :: "OnCallScheduler \<Rightarrow> (var \<times> int \<times> int) list" where
  "shift_vars sch =
     concat (map (\<lambda>s. map (\<lambda>d. (Shift s d, 0, 1)) (day_range sch)) [0..<num_staff sch])"

definition role_working :: "nat list \<Rightarrow> nat \<Rightarrow> expr" where
  "role_working idxs d = SumOf (map (\<lambda>i. Shift i d) idxs)"

definition total_working :: "OnCallScheduler \<Rightarrow> nat \<Rightarrow> expr" where
  "total_working sch d = SumOf (map (\<lambda>s. Shift s d) [0..<num_staff sch])"

text \<open>Hard constraint 1, the body of the loop over days (lines 97 to 130).\<close>

definition coverage_constraints :: "OnCallScheduler \<Rightarrow> nat \<Rightarrow> constr list" where
  "coverage_constraints sch d =
     (let intermediate_working = role_working (intermediate_indices sch) d;
          senior_working = role_working (senior_indices sch) d;
          junior_working = role_working (junior_indices sch) d;
          total = total_working sch d;
          is_pair = Some (IsPair d, True);
          not_pair = Some (IsPair d, False)
      in [Constr total GE (C 1) None,
          Constr total LE (C 2) None,
          Constr total EQ (C 2) is_pair,
          Constr senior_working EQ (C 1) is_pair,
          Constr junior_working EQ (C 1) is_pair,
          Constr intermediate_working EQ (C 0) is_pair,
          Constr total EQ (C 1) not_pair,
          Constr (Plus intermediate_working senior_working) EQ (C 1) not_pair,
          Constr junior_working EQ (C 0) not_pair])"

text \<open>Hard constraint 2: no back-to-back shifts.\<close>

definition back_to_back_constraints :: "OnCallScheduler \<Rightarrow> constr list" where
  "back_to_back_constraints sch =
     concat (map (\<lambda>s. map (\<lambda>d. Constr (Plus (V (Shift s d)) (V (Shift s (d + 1)))) LE (C 1) None)
                        [0..<nat (num_days sch - 1)])
                 [0..<num_staff sch])"

text \<open>Hard constraint 3: unavailable days that fall into the block.\<close>

definition unavailable_constraints :: "OnCallScheduler \<Rightarrow> constr list" where
  "unavailable_constraints sch =
     concat (map (\<lambda>s. concat (map (\<lambda>unavailable_date.
                          (case date_to_index sch unavailable_date of
                             None \<Rightarrow> []
                           | Some day_idx \<Rightarrow> [Constr (V (Shift s day_idx)) EQ (C 0) None]))
                        (unavailable_days (staff_members sch ! s))))
                 [0..<num_staff sch])"

text \<open>Hard constraint 4: a working Junior needs a working Senior.\<close>

definition junior_constraint :: "OnCallScheduler \<Rightarrow> nat \<Rightarrow> nat \<Rightarrow> constr" where
  "junior_constraint sch j_idx d =
     Constr (role_working (senior_indices sch) d) GE (V (Shift j_idx d)) None"

definition junior_constraints :: "OnCallScheduler \<Rightarrow> constr list" where
  "junior_constraints sch =
     concat (map (\<lambda>j_idx. map (junior_constraint sch j_idx) (day_range sch)) (junior_indices sch))"

text \<open>The target band: total shifts within one of \<^verbatim>\<open>target_shifts\<close>.\<close>

definition total_shifts :: "OnCallScheduler \<Rightarrow> nat \<Rightarrow> expr" where
  "total_shifts sch s = SumOf (map (\<lambda>d. Shift s d) (day_range sch))"

definition target_constraints :: "OnCallScheduler \<Rightarrow> constr list" where
  "target_constraints sch =
     concat (map (\<lambda>s.
        (let staff = staff_members sch ! s;
             min_shifts = max 0 (target_shifts staff - 1);
             max_shifts = target_shifts staff + 1
         in [Constr (total_shifts sch s) GE (C min_shifts) None,
             Constr (total_shifts sch s) LE (C max_shifts) None]))
        [0..<num_staff sch])"

text \<open>
  Weekend and Friday balance: the two blocks of the source differ in the day list and in
  the names of the two integer variables only.
\<close>

definition day_shifts :: "nat list \<Rightarrow> nat \<Rightarrow> expr" where
  "day_shifts idxs s = SumOf (map (\<lambda>d. Shift s d) idxs)"

definition balance_vars :: "OnCallScheduler \<Rightarrow> var \<Rightarrow> var \<Rightarrow> nat list \<Rightarrow> (var \<times> int \<times> int) list" where
  "balance_vars sch lo hi idxs =
     (if length idxs > 0 \<and> num_staff sch > 1
      then [(lo, 0, int (length idxs)), (hi, 0, int (length idxs))] else [])"

definition balance_constraints :: "OnCallScheduler \<Rightarrow> var \<Rightarrow> var \<Rightarrow> nat list \<Rightarrow> constr list" where
  "balance_constraints sch lo hi idxs =
     (if length idxs > 0 \<and> num_staff sch > 1
      then concat (map (\<lambda>s. [Constr (V lo) LE (day_shifts idxs s) None,
                               Constr (V hi) GE (day_shifts idxs s) None])
                       [0..<num_staff sch])
           @ [Constr (Minus (V hi) (V lo)) LE (C 1) None]
      else [])"

definition build_model :: "OnCallScheduler \<Rightarrow> cp_model" where
  "build_model sch =
     \<lparr> variables =
         shift_vars sch
         @ map (\<lambda>d. (IsPair d, 0, 1)) (day_range sch)
         @ balance_vars sch MinWeekend MaxWeekend (weekend_day_indices sch)
         @ balance_vars sch MinFriday MaxFriday (friday_day_indices sch),
       constraints =
         concat (map (coverage_constraints sch) (day_range sch))
         @ back_to_back_constraints sch
         @ unavailable_constraints sch
         @ junior_constraints sch
         @ target_constraints sch
         @ balance_constraints sch MinWeekend MaxWeekend (weekend_day_indices sch)
         @ balance_constraints sch MinFriday MaxFriday (friday_day_indices sch) \<rparr>"

section \<open>The solver and the decoder\<close>

text \<open>
  CP-SAT is outside the repository. It is a parameter: a function of the model and the
  random seed that returns a status and the values it assigned. The time limit and
  \<^verbatim>\<open>use_optional_variables\<close> are the same in every call; a solve that hits the time
  limit answers \<open>UNKNOWN\<close>. One such function stands for one run of the solver: two
  runs need not answer alike, even on the same model and seed, so a function that solves
  twice takes one parameter for each run.
\<close>

datatype status = UNKNOWN | MODEL_INVALID | FEASIBLE | INFEASIBLE | OPTIMAL

type_synonym solver = "cp_model \<Rightarrow> int \<Rightarrow> status \<times> valuation"

definition sound :: "solver \<Rightarrow> bool" where
  "sound solve \<longleftrightarrow>
     (\<forall>m seed. fst (solve m seed) = OPTIMAL \<or> fst (solve m seed) = FEASIBLE
        \<longrightarrow> satisfies m (snd (solve m seed)))"

datatype entry = Name string | PairRecord (senior: string) (junior: string) (display: string)

record tally =
  tally_role :: string
  target :: int
  actual :: int
  weekend_shifts :: int
  friday_shifts :: int
  days :: "date list"

datatype message = CouldNotFind | GenerationError int nat

datatype result =
    Success (result_start_date: date) (result_end_date: date)
            (schedule: "(date \<times> entry) list") (staff_assignments: "(string \<times> tally) list")
  | NoSolution message

fun is_success :: "result \<Rightarrow> bool" where
  "is_success (Success _ _ _ _) = True"
| "is_success (NoSolution _) = False"

text \<open>\<^verbatim>\<open>sep.join(xs)\<close>\<close>

fun join :: "string \<Rightarrow> string list \<Rightarrow> string" where
  "join sep [] = []"
| "join sep [x] = x"
| "join sep (x # y # ys) = x @ sep @ join sep (y # ys)"

text \<open>The \<^verbatim>\<open>{"name", "role"}\<close> records of the staff whose shift variable is 1 on day \<open>d\<close>.\<close>

definition working_indices :: "OnCallScheduler \<Rightarrow> valuation \<Rightarrow> nat \<Rightarrow> nat list" where
  "working_indices sch val d = filter (\<lambda>s. val (Shift s d) = 1) [0..<num_staff sch]"

definition working_staff :: "OnCallScheduler \<Rightarrow> valuation \<Rightarrow> nat \<Rightarrow> (string \<times> string) list" where
  "working_staff sch val d =
     map (\<lambda>s. (name (staff_members sch ! s), role (staff_members sch ! s)))
         (working_indices sch val d)"

definition schedule_entry :: "OnCallScheduler \<Rightarrow> valuation \<Rightarrow> nat \<Rightarrow> entry" where
  "schedule_entry sch val d =
     (let ws = working_staff sch val d in
      if length ws = 1 then Name (fst (ws ! 0))
      else if length ws = 2 then
        (case (find (\<lambda>s. snd s = ''Senior'') ws, find (\<lambda>s. snd s = ''Junior'') ws) of
           (Some sr, Some jr) \<Rightarrow>
             PairRecord (fst sr) (fst jr) (fst sr @ '' (Sr) + '' @ fst jr @ '' (Jr)'')
         | _ \<Rightarrow> Name (join '' + '' (map fst ws)))
      else Name ''Unassigned'')"

text \<open>\<^verbatim>\<open>schedule[date_str] = ...\<close> for every day of the block, in order.\<close>

definition build_schedule :: "OnCallScheduler \<Rightarrow> valuation \<Rightarrow> (date \<times> entry) list" where
  "build_schedule sch val =
     foldl (\<lambda>schedule d. AList.update (dates sch ! d) (schedule_entry sch val d) schedule)
           [] (day_range sch)"

definition staff_tally :: "OnCallScheduler \<Rightarrow> valuation \<Rightarrow> nat \<Rightarrow> tally" where
  "staff_tally sch val s =
     \<lparr> tally_role = role (staff_members sch ! s),
       target = target_shifts (staff_members sch ! s),
       actual = sum_list (map (\<lambda>d. val (Shift s d)) (day_range sch)),
       weekend_shifts = sum_list (map (\<lambda>d. val (Shift s d)) (weekend_day_indices sch)),
       friday_shifts = sum_list (map (\<lambda>d. val (Shift s d)) (friday_day_indices sch)),
       days = map (\<lambda>d. dates sch ! d) (filter (\<lambda>d. val (Shift s d) = 1) (day_range sch)) \<rparr>"

text \<open>\<^verbatim>\<open>staff_assignments[staff.name] = {...}\<close> for every staff member, in order.\<close>

definition build_assignments :: "OnCallScheduler \<Rightarrow> valuation \<Rightarrow> (string \<times> tally) list" where
  "build_assignments sch val =
     foldl (\<lambda>assignments s.
              AList.update (name (staff_members sch ! s)) (staff_tally sch val s) assignments)
           [] [0..<num_staff sch]"

text \<open>
  \<^verbatim>\<open>generate_schedule\<close>. \<open>now_ms\<close> is the clock reading
  \<^verbatim>\<open>int(time.time() * 1000)\<close>, used only when no seed is given.
\<close>

definition solver_seed :: "int \<Rightarrow> int option \<Rightarrow> int" where
  "solver_seed now_ms random_seed =
     (case random_seed of Some k \<Rightarrow> k | None \<Rightarrow> now_ms mod (2 ^ 31 - 1))"

definition generate_schedule :: "solver \<Rightarrow> int \<Rightarrow> OnCallScheduler \<Rightarrow> int option \<Rightarrow> result" where
  "generate_schedule solve now_ms sch random_seed =
     (case solve (build_model sch) (solver_seed now_ms random_seed) of
        (status, val) \<Rightarrow>
          if status = OPTIMAL \<or> status = FEASIBLE then
            (let schedule = build_schedule sch val in
             if int (length schedule) \<noteq> num_days sch
             then NoSolution (GenerationError (num_days sch) (length schedule))
             else Success (start_date sch) (end_date sch) schedule (build_assignments sch val))
          else NoSolution CouldNotFind)"

text \<open>
  \<^verbatim>\<open>generate_schedule_with_relaxation\<close>. The source overwrites every
  \<^verbatim>\<open>target_shifts\<close> with \<^verbatim>\<open>max(1, target_shifts)\<close>, solves again and writes the
  original targets back; the function returns the result together with the scheduler as
  the call leaves it. \<open>solve1\<close> and \<open>now1\<close> are the solver run and the clock reading
  of the strict attempt, \<open>solve2\<close> and \<open>now2\<close> those of the second attempt.
\<close>

definition relax_targets :: "OnCallScheduler \<Rightarrow> OnCallScheduler" where
  "relax_targets sch =
     sch\<lparr>staff_members :=
           map (\<lambda>staff. staff\<lparr>target_shifts := max 1 (target_shifts staff)\<rparr>) (staff_members sch)\<rparr>"

definition restore_targets :: "OnCallScheduler \<Rightarrow> int list \<Rightarrow> OnCallScheduler" where
  "restore_targets sch original_targets =
     sch\<lparr>staff_members :=
           map (\<lambda>(staff, original). staff\<lparr>target_shifts := original\<rparr>)
               (zip (staff_members sch) original_targets)\<rparr>"

definition generate_schedule_with_relaxation ::
  "solver \<Rightarrow> solver \<Rightarrow> int \<Rightarrow> int \<Rightarrow> OnCallScheduler \<Rightarrow> int option \<Rightarrow> result \<times> OnCallScheduler" where
  "generate_schedule_with_relaxation solve1 solve2 now1 now2 sch random_seed =
     (let result = generate_schedule solve1 now1 sch random_seed in
      if is_success result then (result, sch)
      else
        (let original_targets = map target_shifts (staff_members sch);
             relaxed = relax_targets sch;
             result = generate_schedule solve2 now2 relaxed random_seed
         in (result, restore_targets relaxed original_targets)))"

section \<open>The coverage rule\<close>

text \<open>
  The constraints the builder posts for one day: the nine coverage constraints and, for
  every Junior, the constraint that a Senior works when the Junior does.
\<close>

definition day_constraints :: "OnCallScheduler \<Rightarrow> nat \<Rightarrow> constr list" where
  "day_constraints sch d =
     coverage_constraints sch d @ map (\<lambda>j_idx. junior_constraint sch j_idx d) (junior_indices sch)"

text \<open>
  The rule in the words of the specification: the staff working the day are one
  Intermediate, or one Senior, or one Senior together with one Junior.
\<close>

definition working_roles :: "OnCallScheduler \<Rightarrow> valuation \<Rightarrow> nat \<Rightarrow> string list" where
  "working_roles sch v d = map (\<lambda>s. role (staff_members sch ! s)) (working_indices sch v d)"

definition covered :: "OnCallScheduler \<Rightarrow> valuation \<Rightarrow> nat \<Rightarrow> bool" where
  "covered sch v d =
     (case working_roles sch v d of
        [r] \<Rightarrow> r = ''Intermediate'' \<or> r = ''Senior''
      | [r1, r2] \<Rightarrow> (r1 = ''Senior'' \<and> r2 = ''Junior'') \<or> (r1 = ''Junior'' \<and> r2 = ''Senior'')
      | _ \<Rightarrow> False)"

text \<open>A 0/1 assignment to the shift variables of day \<open>d\<close>.\<close>

definition binary_on_day :: "OnCallScheduler \<Rightarrow> valuation \<Rightarrow> nat \<Rightarrow> bool" where
  "binary_on_day sch v d = list_all (\<lambda>s. v (Shift s d) = 0 \<or> v (Shift s d) = 1) [0..<num_staff sch]"

section \<open>The relaxed model as the specification describes it\<close>

text \<open>
  For comparison with what the source builds: the model of the strict phase with the
  target band of every staff member replaced by the single constraint that the staff
  member works at least one day. This definition follows the words of the specification,
  not the source.
\<close>

definition relaxed_target_constraints :: "OnCallScheduler \<Rightarrow> constr list" where
  "relaxed_target_constraints sch =
     map (\<lambda>s. Constr (total_shifts sch s) GE (C 1) None) [0..<num_staff sch]"

definition spec_relaxed_model :: "OnCallScheduler \<Rightarrow> cp_model" where
  "spec_relaxed_model sch =
     (build_model sch)\<lparr>constraints :=
         concat (map (coverage_constraints sch) (day_range sch))
         @ back_to_back_constraints sch
         @ unavailable_constraints sch
         @ junior_constraints sch
         @ relaxed_target_constraints sch
         @ balance_constraints sch MinWeekend MaxWeekend (weekend_day_indices sch)
         @ balance_constraints sch MinFriday MaxFriday (friday_day_indices sch)\<rparr>"

section \<open>Reading a result\<close>

text \<open>
  The two sides of the round trip the specification states: the days listed in the tallies
  of \<^verbatim>\<open>staff_assignments\<close>, taken together, and the dates the schedule map stands
  for, a solo entry once and a pair record twice.
\<close>

definition decoded_days :: "(string \<times> tally) list \<Rightarrow> date multiset" where
  "decoded_days asg = sum_list (map (\<lambda>e. mset (days (snd e))) asg)"

definition implied_dates :: "(date \<times> entry) list \<Rightarrow> date multiset" where
  "implied_dates sched =
     sum_list (map (\<lambda>e. case snd e of Name _ \<Rightarrow> {#fst e#} | PairRecord _ _ _ \<Rightarrow> {#fst e, fst e#}) sched)"

section \<open>Concrete inputs\<close>

text \<open>
  A solver that proposes one fixed assignment and reports \<open>FEASIBLE\<close> exactly when the
  assignment satisfies the model it was given; it stands for CP-SAT in the examples.
\<close>

definition check_solver :: "valuation \<Rightarrow> solver" where
  "check_solver cand m seed = (if satisfies m cand then (FEASIBLE, cand) else (INFEASIBLE, cand))"

text \<open>The assignment that is 1 on the listed variables and 0 elsewhere.\<close>

definition ones :: "var list \<Rightarrow> valuation" where
  "ones xs x = (if x \<in> set xs then 1 else 0)"

text \<open>
  A week from Monday 2024-12-02 (day number 739222) with the four roles of the smoke test:
  Smith pairs with Williams on Monday and Thursday.
\<close>

definition ex_staff :: "StaffMember list" where
  "ex_staff =
     [\<lparr>name = ''Smith'', role = ''Senior'', target_shifts = 3, unavailable_days = []\<rparr>,
      \<lparr>name = ''Brown'', role = ''Senior'', target_shifts = 2, unavailable_days = [739225, 739300]\<rparr>,
      \<lparr>name = ''Jones'', role = ''Intermediate'', target_shifts = 2, unavailable_days = []\<rparr>,
      \<lparr>name = ''Williams'', role = ''Junior'', target_shifts = 2, unavailable_days = []\<rparr>]"

definition ex_sch :: OnCallScheduler where
  "ex_sch = OnCallScheduler_init ex_staff 739222 7"

definition ex_val :: valuation where
  "ex_val = ones [Shift 0 0, Shift 3 0, Shift 2 1, Shift 1 2, Shift 0 3, Shift 3 3, Shift 2 4,
                  Shift 1 5, Shift 0 6, IsPair 0, IsPair 3, MaxWeekend, MaxFriday]"

text \<open>Two Seniors with target 1: a roster whose bands allow an empty block.\<close>

definition idle_staff :: "StaffMember list" where
  "idle_staff =
     [\<lparr>name = ''Smith'', role = ''Senior'', target_shifts = 1, unavailable_days = []\<rparr>,
      \<lparr>name = ''Brown'', role = ''Senior'', target_shifts = 1, unavailable_days = []\<rparr>]"

text \<open>
  A solver that answers \<open>FEASIBLE\<close> with a fixed assignment whatever the model says, and
  an assignment that puts three staff on the first day and nobody on the others.
\<close>

definition blind_solver :: "valuation \<Rightarrow> solver" where
  "blind_solver cand m seed = (FEASIBLE, cand)"

definition crowd_val :: valuation where
  "crowd_val = ones [Shift 0 0, Shift 1 0, Shift 2 0]"

text \<open>
  Three Seniors, two of them under the same name, and a week in which the first works
  Monday, Thursday and Sunday, the second Tuesday and Friday, the third Wednesday and
  Saturday.
\<close>

definition dup_staff :: "StaffMember list" where
  "dup_staff =
     [\<lparr>name = ''Lee'', role = ''Senior'', target_shifts = 3, unavailable_days = []\<rparr>,
      \<lparr>name = ''Lee'', role = ''Senior'', target_shifts = 2, unavailable_days = []\<rparr>,
      \<lparr>name = ''Park'', role = ''Senior'', target_shifts = 2, unavailable_days = []\<rparr>]"

definition dup_sch :: OnCallScheduler where
  "dup_sch = OnCallScheduler_init dup_staff 739222 7"

definition dup_val :: valuation where
  "dup_val = ones [Shift 0 0, Shift 1 1, Shift 2 2, Shift 0 3, Shift 1 4, Shift 2 5, Shift 0 6,
                   MaxWeekend, MaxFriday]"

text \<open>
  The over-constrained week of the specification's fifth scenario: two Seniors with target 7
  and seven days. The assignment \<open>alt_val\<close> lets the first two staff alternate.
\<close>

definition sc5_staff :: "StaffMember list" where
  "sc5_staff =
     [\<lparr>name = ''Smith'', role = ''Senior'', target_shifts = 7, unavailable_days = []\<rparr>,
      \<lparr>name = ''Brown'', role = ''Senior'', target_shifts = 7, unavailable_days = []\<rparr>]"

definition sc5_sch :: OnCallScheduler where
  "sc5_sch = OnCallScheduler_init sc5_staff 739222 7"

definition alt_val :: valuation where
  "alt_val = ones [Shift 0 0, Shift 1 1, Shift 0 2, Shift 1 3, Shift 0 4, Shift 1 5, Shift 0 6,
                   MaxWeekend, MaxFriday]"

text \<open>
  A third Senior beside the two that alternate, once with target 1 and once with a target
  below 1, which only a direct caller of the class can pass.
\<close>

definition lazy_staff :: "StaffMember list" where
  "lazy_staff =
     [\<lparr>name = ''Smith'', role = ''Senior'', target_shifts = 4, unavailable_days = []\<rparr>,
      \<lparr>name = ''Brown'', role = ''Senior'', target_shifts = 3, unavailable_days = []\<rparr>,
      \<lparr>name = ''Jones'', role = ''Senior'', target_shifts = 1, unavailable_days = []\<rparr>]"

definition lazy_sch :: OnCallScheduler where
  "lazy_sch = OnCallScheduler_init lazy_staff 739222 7"

definition neg_staff :: "StaffMember list" where
  "neg_staff =
     [\<lparr>name = ''Smith'', role = ''Senior'', target_shifts = 4, unavailable_days = []\<rparr>,
      \<lparr>name = ''Brown'', role = ''Senior'', target_shifts = 3, unavailable_days = []\<rparr>,
      \<lparr>name = ''Jones'', role = ''Senior'', target_shifts = - 5, unavailable_days = []\<rparr>]"

definition neg_sch :: OnCallScheduler where
  "neg_sch = OnCallScheduler_init neg_staff 739222 7"

text \<open>
  A solver that gives up (\<open>UNKNOWN\<close>, as when the time limit strikes) on one seed and
  behaves like \<open>check_solver\<close> on every other.
\<close>

definition flaky_solver :: "valuation \<Rightarrow> int \<Rightarrow> solver" where
  "flaky_solver cand bad_seed m seed =
     (if seed = bad_seed then (UNKNOWN, cand) else check_solver cand m seed)"

section \<open>The relaxation pass\<close>

lemma relax_targets_ident:
  assumes "list_all (\<lambda>st. 1 \<le> target_shifts st) (staff_members sch)"
  shows "relax_targets sch = sch"
proof -
  have "map (\<lambda>staff. staff\<lparr>target_shifts := max 1 (target_shifts staff)\<rparr>) (staff_members sch)
        = staff_members sch"
    using assms by (intro map_idI) (simp add: list_all_iff max_def)
  then show ?thesis by (simp add: relax_targets_def)
qed

section \<open>The constructor and the schedule map\<close>

lemma init_fields:
  "staff_members (OnCallScheduler_init staff start n) = staff"
  "start_date (OnCallScheduler_init staff start n) = start"
  "num_days (OnCallScheduler_init staff start n) = n"
  "end_date (OnCallScheduler_init staff start n) = start + (n - 1)"
  "dates (OnCallScheduler_init staff start n) = map (\<lambda>i. start + int i) [0..<nat n]"
  "num_staff (OnCallScheduler_init staff start n) = length staff"
  "day_range (OnCallScheduler_init staff start n) = [0..<nat n]"
  by (simp_all add: OnCallScheduler_init_def Let_def num_staff_def day_range_def)

lemma update_fresh: "k \<notin> fst ` set al \<Longrightarrow> AList.update k v al = al @ [(k, v)]"
  by (induction al) auto

lemma foldl_update_distinct:
  "distinct (map f xs) \<Longrightarrow> (\<forall>x\<in>set xs. f x \<notin> fst ` set acc) \<Longrightarrow>
   foldl (\<lambda>a x. AList.update (f x) (g x) a) acc xs = acc @ map (\<lambda>x. (f x, g x)) xs"
proof (induction xs arbitrary: acc)
  case Nil
  then show ?case by simp
next
  case (Cons x xs)
  have fresh: "f x \<notin> fst ` set acc" using Cons.prems(2) by simp
  have "\<forall>y\<in>set xs. f y \<notin> fst ` set (acc @ [(f x, g x)])"
  proof
    fix y assume y: "y \<in> set xs"
    have "f x \<notin> f ` set xs" using Cons.prems(1) by simp
    with y have "f y \<noteq> f x" by (metis imageI)
    moreover have "f y \<notin> fst ` set acc" using y Cons.prems(2) by simp
    ultimately show "f y \<notin> fst ` set (acc @ [(f x, g x)])" by auto
  qed
  with Cons.IH [of "acc @ [(f x, g x)]"] Cons.prems(1) fresh show ?case
    by (simp add: update_fresh)
qed

lemma build_schedule_init:
  "build_schedule (OnCallScheduler_init staff start n) val =
     map (\<lambda>d. (start + int d, schedule_entry (OnCallScheduler_init staff start n) val d)) [0..<nat n]"
proof -
  let ?sch = "OnCallScheduler_init staff start n"
  have "build_schedule ?sch val =
        foldl (\<lambda>schedule d. AList.update (start + int d) (schedule_entry ?sch val d) schedule) [] [0..<nat n]"
    unfolding build_schedule_def init_fields
    by (rule foldl_cong) simp_all
  also have "\<dots> = [] @ map (\<lambda>d. (start + int d, schedule_entry ?sch val d)) [0..<nat n]"
    by (rule foldl_update_distinct) (simp_all add: distinct_map inj_on_def)
  finally show ?thesis by simp
qed


lemma block_dates_in_range:
  assumes "date_min \<le> start" and "\<forall>i\<in>set js. start + int i \<le> date_max"
  shows "block_dates start js = Inr (map (\<lambda>i. start + int i) js)"
  using assms
proof (induction js)
  case Nil
  then show ?case by simp
next
  case (Cons j js)
  have "start + int j \<le> date_max" using Cons.prems(2) by simp
  then have "date_add start (int j) = Inr (start + int j)"
    using Cons.prems(1) by (simp add: date_add_def date_min_def date_max_def)
  with Cons show ?case by simp
qed

lemma OnCallScheduler_new_eq:
  assumes "date_min \<le> start" and "start \<le> date_max"
  shows "OnCallScheduler_new staff start n =
           (if \<bar>n - 1\<bar> \<le> 999999999 \<and> date_min \<le> start + (n - 1) \<and> start + (n - 1) \<le> date_max
            then Inr (OnCallScheduler_init staff start n) else Inl OverflowError)"
proof (cases "\<bar>n - 1\<bar> \<le> 999999999 \<and> date_min \<le> start + (n - 1) \<and> start + (n - 1) \<le> date_max")
  case True
  then have last: "date_add start (n - 1) = Inr (start + (n - 1))"
    by (simp add: date_add_def)
  have "\<forall>i\<in>set [0..<nat n]. start + int i \<le> date_max"
    using True by auto
  with assms(1) have block: "block_dates start [0..<nat n] = Inr (map (\<lambda>i. start + int i) [0..<nat n])"
    by (rule block_dates_in_range)
  have "(OnCallScheduler_init staff start n)
          \<lparr>end_date := start + (n - 1), dates := map (\<lambda>i. start + int i) [0..<nat n]\<rparr>
        = OnCallScheduler_init staff start n"
    by (simp add: OnCallScheduler_init_def Let_def)
  with True last block show ?thesis
    by (simp add: OnCallScheduler_new_def)
next
  case False
  then have "date_add start (n - 1) = Inl OverflowError"
    by (auto simp: date_add_def)
  with False show ?thesis
    by (simp add: OnCallScheduler_new_def)
qed

text \<open>
  Every scheduler the constructor returns is the one \<open>OnCallScheduler_init\<close> describes,
  so what is proved below about \<open>OnCallScheduler_init\<close> holds of every scheduler that
  exists.
\<close>

lemma OnCallScheduler_new_Inr:
  assumes "date_min \<le> start" and "start \<le> date_max"
      and "OnCallScheduler_new staff start n = Inr sch"
  shows "sch = OnCallScheduler_init staff start n"
  using assms(3) unfolding OnCallScheduler_new_eq [OF assms(1,2)] by (simp split: if_splits)

text \<open>
  Claim C9 fails as stated, in both halves. The constructor checks no range: a block of
  three days is built like any other. And inside the range it does not always produce the
  dates: a block of seven days from 9999-12-30 (day 3652058) runs past the last date
  Python has, and the constructor raises.
\<close>

theorem calendar_built_outside_range:
  "\<not> (7 \<le> (3::int) \<and> (3::int) \<le> 90)
   \<and> OnCallScheduler_new idle_staff 739222 3 = Inr (OnCallScheduler_init idle_staff 739222 3)
   \<and> dates (OnCallScheduler_init idle_staff 739222 3) = [739222, 739223, 739224]
   \<and> (7 \<le> (7::int) \<and> (7::int) \<le> 90)
   \<and> OnCallScheduler_new idle_staff 3652058 7 = Inl OverflowError"
proof -
  have "dates (OnCallScheduler_init idle_staff 739222 3) = [739222, 739223, 739224]"
    by code_simp
  moreover have "OnCallScheduler_new idle_staff 739222 3 = Inr (OnCallScheduler_init idle_staff 739222 3)"
    by (simp add: OnCallScheduler_new_eq date_min_def date_max_def)
  moreover have "OnCallScheduler_new idle_staff 3652058 7 = Inl OverflowError"
    by (simp add: OnCallScheduler_new_eq date_min_def date_max_def)
  ultimately show ?thesis by simp
qed

text \<open>
  Claim C9, amended. A \<^verbatim>\<open>num_days\<close> outside 7..90 is refused by the request type of
  the entry point, whatever else the request holds, so that the entry point builds no
  scheduler for it; the constructor has no such check. For \<^verbatim>\<open>num_days\<close> inside 7..90
  the constructor produces the \<^verbatim>\<open>num_days\<close> consecutive dates starting at
  \<^verbatim>\<open>start_date\<close> when the last of them is no later than 9999-12-31, and raises
  \<^verbatim>\<open>OverflowError\<close> otherwise.
\<close>

theorem calendar_range_checked_by_request:
  assumes "date_min \<le> start" and "start \<le> date_max"
  shows "(n < 7 \<or> 90 < n \<longrightarrow> endpoint_scheduler staff start n = Inl Unprocessable)
       \<and> (7 \<le> n \<and> n \<le> 90 \<and> start + (n - 1) \<le> date_max \<longrightarrow>
            (\<exists>sch. OnCallScheduler_new staff start n = Inr sch
                 \<and> dates sch = map (\<lambda>i. start + int i) [0..<nat n]
                 \<and> int (length (dates sch)) = n))
       \<and> (7 \<le> n \<and> n \<le> 90 \<and> date_max < start + (n - 1) \<longrightarrow>
            OnCallScheduler_new staff start n = Inl OverflowError)"
proof (intro conjI impI)
  assume "n < 7 \<or> 90 < n"
  then show "endpoint_scheduler staff start n = Inl Unprocessable"
    by (auto simp: endpoint_scheduler_def)
next
  assume inside: "7 \<le> n \<and> n \<le> 90 \<and> start + (n - 1) \<le> date_max"
  with assms have "OnCallScheduler_new staff start n = Inr (OnCallScheduler_init staff start n)"
    by (simp add: OnCallScheduler_new_eq date_min_def)
  moreover have "dates (OnCallScheduler_init staff start n) = map (\<lambda>i. start + int i) [0..<nat n]"
    by (simp add: init_fields)
  moreover have "int (length (dates (OnCallScheduler_init staff start n))) = n"
    using inside by (simp add: init_fields)
  ultimately show "\<exists>sch. OnCallScheduler_new staff start n = Inr sch
                 \<and> dates sch = map (\<lambda>i. start + int i) [0..<nat n]
                 \<and> int (length (dates sch)) = n"
    by blast
next
  assume "7 \<le> n \<and> n \<le> 90 \<and> date_max < start + (n - 1)"
  with assms show "OnCallScheduler_new staff start n = Inl OverflowError"
    by (simp add: OnCallScheduler_new_eq)
qed

theorem calendar_range_checked_by_request_witness:
  "date_min \<le> 739222 \<and> 739222 \<le> date_max
   \<and> endpoint_scheduler ex_staff 739222 3 = Inl Unprocessable
   \<and> endpoint_scheduler ex_staff 739222 4000000 = Inl Unprocessable
   \<and> OnCallScheduler_new ex_staff 739222 4000000 = Inl OverflowError
   \<and> (\<exists>sch. OnCallScheduler_new ex_staff 739222 7 = Inr sch
          \<and> dates sch = [739222, 739223, 739224, 739225, 739226, 739227, 739228]
          \<and> int (length (dates sch)) = 7)
   \<and> date_min \<le> 3652058 \<and> 3652058 \<le> date_max
   \<and> OnCallScheduler_new ex_staff 3652058 7 = Inl OverflowError"
proof -
  have r1: "date_min \<le> 739222" "739222 \<le> date_max"
    and r2: "date_min \<le> 3652058" "3652058 \<le> date_max"
    by (simp_all add: date_min_def date_max_def)
  have block: "map (\<lambda>i. 739222 + int i) [0..<nat 7]
                 = [739222, 739223, 739224, 739225, 739226, 739227, 739228]"
    by code_simp
  have big: "OnCallScheduler_new ex_staff 739222 4000000 = Inl OverflowError"
    by (simp add: OnCallScheduler_new_eq date_min_def date_max_def)
  note a = calendar_range_checked_by_request [OF r1, of 3 ex_staff]
  note b = calendar_range_checked_by_request [OF r1, of 4000000 ex_staff]
  note c = calendar_range_checked_by_request [OF r1, of 7 ex_staff]
  note d = calendar_range_checked_by_request [OF r2, of 7 ex_staff]
  have c': "\<exists>sch. OnCallScheduler_new ex_staff 739222 7 = Inr sch
          \<and> dates sch = [739222, 739223, 739224, 739225, 739226, 739227, 739228]
          \<and> int (length (dates sch)) = 7"
    using c block by (simp add: date_max_def)
  have d': "OnCallScheduler_new ex_staff 3652058 7 = Inl OverflowError"
    using d by (simp add: date_max_def)
  show ?thesis
    using r1 r2 a b big c' d' by simp
qed

lemma schedule_keys_distinct:
  "distinct (map fst (map (\<lambda>d. (start + int d, e d)) [0..<k]))"
  by (simp add: distinct_map inj_on_def comp_def)

lemma schedule_lookup:
  assumes "d < k"
  shows "map_of (map (\<lambda>d. (start + int d, e d)) [0..<k]) (start + int d) = Some (e d)"
proof -
  have "(start + int d, e d) \<in> set (map (\<lambda>d. (start + int d, e d)) [0..<k])"
    using assms by auto
  with schedule_keys_distinct [of start e k] show ?thesis
    by (simp only: map_of_eq_Some_iff)
qed

lemma generate_schedule_init_ok:
  assumes "solve (build_model (OnCallScheduler_init staff start n)) (solver_seed now seed) = (st, val)"
      and "st = OPTIMAL \<or> st = FEASIBLE" and "0 \<le> n"
  shows "generate_schedule solve now (OnCallScheduler_init staff start n) seed =
           Success start (start + (n - 1))
             (build_schedule (OnCallScheduler_init staff start n) val)
             (build_assignments (OnCallScheduler_init staff start n) val)"
  using assms by (auto simp: generate_schedule_def Let_def build_schedule_init init_fields)

section \<open>The decoder on assignments that break the coverage rule\<close>

text \<open>
  Claim C8 fails as stated: for an assignment with three staff on the first day and nobody
  on the other six, the decoder writes an entry for every day and returns success.
\<close>

theorem unassigned_day_returned_as_success:
  "schedule (generate_schedule (blind_solver crowd_val) 0 ex_sch (Some 1)) =
     [(739222, Name ''Unassigned''), (739223, Name ''Unassigned''), (739224, Name ''Unassigned''),
      (739225, Name ''Unassigned''), (739226, Name ''Unassigned''), (739227, Name ''Unassigned''),
      (739228, Name ''Unassigned'')]
   \<and> is_success (generate_schedule (blind_solver crowd_val) 0 ex_sch (Some 1))
   \<and> length (working_indices ex_sch crowd_val 0) = 3
   \<and> length (working_indices ex_sch crowd_val 1) = 0"
  by code_simp


text \<open>
  Claim C8, amended. When the solver reports a solution in which a day of the block has no
  staff or more than two staff assigned, the decoder does not fail: it writes the entry
  \<^verbatim>\<open>"Unassigned"\<close> for that day and the result is returned as success.
\<close>

theorem decoder_marks_unassigned:
  assumes sch: "sch = OnCallScheduler_init staff start n"
      and run: "solve (build_model sch) (solver_seed now seed) = (st, val)"
      and ok: "st = OPTIMAL \<or> st = FEASIBLE"
      and day: "d < nat n"
      and bad: "length (working_indices sch val d) = 0 \<or> 2 < length (working_indices sch val d)"
  shows "generate_schedule solve now sch seed =
           Success start (start + (n - 1)) (build_schedule sch val) (build_assignments sch val)
       \<and> map_of (build_schedule sch val) (start + int d) = Some (Name ''Unassigned'')"
proof -
  have entry: "schedule_entry sch val d = Name ''Unassigned''"
    using bad by (auto simp: schedule_entry_def working_staff_def Let_def)
  have "0 \<le> n" using day by simp
  with run ok have res: "generate_schedule solve now sch seed =
      Success start (start + (n - 1)) (build_schedule sch val) (build_assignments sch val)"
    unfolding sch by (rule generate_schedule_init_ok)
  have "map_of (build_schedule sch val) (start + int d) = Some (schedule_entry sch val d)"
    unfolding sch build_schedule_init using day by (rule schedule_lookup)
  with entry res show ?thesis by simp
qed

theorem decoder_marks_unassigned_witness:
  "blind_solver crowd_val (build_model ex_sch) (solver_seed 0 (Some 1)) = (FEASIBLE, crowd_val)
   \<and> length (working_indices ex_sch crowd_val 0) = 3
   \<and> length (working_indices ex_sch crowd_val 1) = 0
   \<and> is_success (generate_schedule (blind_solver crowd_val) 0 ex_sch (Some 1))
   \<and> map_of (build_schedule ex_sch crowd_val) 739222 = Some (Name ''Unassigned'')
   \<and> map_of (build_schedule ex_sch crowd_val) 739223 = Some (Name ''Unassigned'')"
proof -
  have run: "blind_solver crowd_val (build_model ex_sch) (solver_seed 0 (Some 1)) = (FEASIBLE, crowd_val)"
    by (simp add: blind_solver_def)
  have w0: "length (working_indices ex_sch crowd_val 0) = 3"
    by code_simp
  have w1: "length (working_indices ex_sch crowd_val 1) = 0"
    by code_simp
  have ok: "FEASIBLE = OPTIMAL \<or> FEASIBLE = FEASIBLE" by simp
  have b0: "length (working_indices ex_sch crowd_val 0) = 0 \<or> 2 < length (working_indices ex_sch crowd_val 0)"
    using w0 by simp
  have b1: "length (working_indices ex_sch crowd_val 1) = 0 \<or> 2 < length (working_indices ex_sch crowd_val 1)"
    using w1 by simp
  have l0: "(0::nat) < nat 7" and l1: "(1::nat) < nat 7" by simp_all
  note d0 = decoder_marks_unassigned
      [where solve = "blind_solver crowd_val" and now = 0 and seed = "Some 1",
       OF ex_sch_def run ok l0 b0]
  note d1 = decoder_marks_unassigned
      [where solve = "blind_solver crowd_val" and now = 0 and seed = "Some 1",
       OF ex_sch_def run ok l1 b1]
  show ?thesis
    using run w0 w1 d0 d1 by simp
qed

section \<open>The coverage constraints of a day\<close>

lemma sum_list_binary:
  fixes f :: "nat \<Rightarrow> int"
  assumes "\<forall>i\<in>set L. f i = 0 \<or> f i = 1"
  shows "sum_list (map f L) = int (length (filter (\<lambda>i. f i = 1) L))"
  using assms by (induction L) auto

lemma role_count:
  "length (filter (\<lambda>i. v (Shift i d) = 1) (role_indices r (staff_members sch)))
     = length (filter (\<lambda>x. x = r) (working_roles sch v d))"
proof -
  have "filter (\<lambda>i. v (Shift i d) = 1) (role_indices r (staff_members sch))
        = filter (\<lambda>i. role (staff_members sch ! i) = r) (working_indices sch v d)"
    by (simp add: role_indices_def working_indices_def num_staff_def conj_commute)
  then show ?thesis
    by (simp add: working_roles_def filter_map comp_def)
qed

lemma role_sum:
  assumes "binary_on_day sch v d"
  shows "sum_list (map (\<lambda>i. v (Shift i d)) (role_indices r (staff_members sch)))
           = int (length (filter (\<lambda>x. x = r) (working_roles sch v d)))"
proof -
  have "\<forall>i\<in>set (role_indices r (staff_members sch)). v (Shift i d) = 0 \<or> v (Shift i d) = 1"
    using assms by (auto simp: binary_on_day_def role_indices_def list_all_iff num_staff_def)
  then show ?thesis
    by (simp add: sum_list_binary role_count)
qed

lemma total_sum:
  assumes "binary_on_day sch v d"
  shows "sum_list (map (\<lambda>i. v (Shift i d)) [0..<num_staff sch]) = int (length (working_roles sch v d))"
proof -
  have "\<forall>i\<in>set [0..<num_staff sch]. v (Shift i d) = 0 \<or> v (Shift i d) = 1"
    using assms by (simp add: binary_on_day_def list_all_iff)
  then show ?thesis
    by (simp add: sum_list_binary working_roles_def working_indices_def)
qed

lemma coverage_arith:
  fixes R :: "string list"
  shows "(\<exists>p\<in>{0, 1::int}.
            1 \<le> int (length R) \<and> int (length R) \<le> 2
          \<and> (p = 1 \<longrightarrow> int (length R) = 2
                \<and> int (length (filter (\<lambda>x. x = ''Senior'') R)) = 1
                \<and> int (length (filter (\<lambda>x. x = ''Junior'') R)) = 1
                \<and> int (length (filter (\<lambda>x. x = ''Intermediate'') R)) = 0)
          \<and> (p \<noteq> 1 \<longrightarrow> int (length R) = 1
                \<and> int (length (filter (\<lambda>x. x = ''Intermediate'') R))
                    + int (length (filter (\<lambda>x. x = ''Senior'') R)) = 1
                \<and> int (length (filter (\<lambda>x. x = ''Junior'') R)) = 0)
          \<and> (0 < length (filter (\<lambda>x. x = ''Junior'') R)
                \<longrightarrow> 1 \<le> length (filter (\<lambda>x. x = ''Senior'') R)))
         \<longleftrightarrow>
         (case R of
            [r] \<Rightarrow> r = ''Intermediate'' \<or> r = ''Senior''
          | [r1, r2] \<Rightarrow> (r1 = ''Senior'' \<and> r2 = ''Junior'') \<or> (r1 = ''Junior'' \<and> r2 = ''Senior'')
          | _ \<Rightarrow> False)"
proof (cases R)
  case Nil
  then show ?thesis by simp
next
  case (Cons a R1)
  note outer = Cons
  show ?thesis
  proof (cases R1)
    case Nil
    with outer show ?thesis by auto
  next
    case (Cons b R2)
    note mid = Cons
    show ?thesis
    proof (cases R2)
      case Nil
      with outer mid show ?thesis by auto
    next
      case (Cons c R3)
      with outer mid show ?thesis by simp
    qed
  qed
qed

lemma init_indices:
  "junior_indices (OnCallScheduler_init staff start n) = role_indices ''Junior'' staff"
  "intermediate_indices (OnCallScheduler_init staff start n) = role_indices ''Intermediate'' staff"
  "senior_indices (OnCallScheduler_init staff start n) = role_indices ''Senior'' staff"
  by (simp_all add: OnCallScheduler_init_def Let_def)

lemma coverage_holds_iff:
  assumes sch: "sch = OnCallScheduler_init staff start n"
      and bin: "binary_on_day sch v d"
  shows "list_all (holds (v(IsPair d := p))) (coverage_constraints sch d) \<longleftrightarrow>
           1 \<le> int (length (working_roles sch v d)) \<and> int (length (working_roles sch v d)) \<le> 2
         \<and> (p = 1 \<longrightarrow> int (length (working_roles sch v d)) = 2
               \<and> int (length (filter (\<lambda>x. x = ''Senior'') (working_roles sch v d))) = 1
               \<and> int (length (filter (\<lambda>x. x = ''Junior'') (working_roles sch v d))) = 1
               \<and> int (length (filter (\<lambda>x. x = ''Intermediate'') (working_roles sch v d))) = 0)
         \<and> (p \<noteq> 1 \<longrightarrow> int (length (working_roles sch v d)) = 1
               \<and> int (length (filter (\<lambda>x. x = ''Intermediate'') (working_roles sch v d)))
                   + int (length (filter (\<lambda>x. x = ''Senior'') (working_roles sch v d))) = 1
               \<and> int (length (filter (\<lambda>x. x = ''Junior'') (working_roles sch v d))) = 0)"
proof -
  have S: "sum_list (map (\<lambda>i. v (Shift i d)) (senior_indices sch))
             = int (length (filter (\<lambda>x. x = ''Senior'') (working_roles sch v d)))"
    using role_sum [OF bin, of "''Senior''"] by (simp add: sch init_indices init_fields)
  have J: "sum_list (map (\<lambda>i. v (Shift i d)) (junior_indices sch))
             = int (length (filter (\<lambda>x. x = ''Junior'') (working_roles sch v d)))"
    using role_sum [OF bin, of "''Junior''"] by (simp add: sch init_indices init_fields)
  have I: "sum_list (map (\<lambda>i. v (Shift i d)) (intermediate_indices sch))
             = int (length (filter (\<lambda>x. x = ''Intermediate'') (working_roles sch v d)))"
    using role_sum [OF bin, of "''Intermediate''"] by (simp add: sch init_indices init_fields)
  note T = total_sum [OF bin]
  show ?thesis
    by (simp add: coverage_constraints_def Let_def role_working_def total_working_def comp_def S J I T)
qed

lemma junior_holds_iff:
  assumes sch: "sch = OnCallScheduler_init staff start n"
      and bin: "binary_on_day sch v d"
  shows "list_all (holds (v(IsPair d := p))) (map (\<lambda>j_idx. junior_constraint sch j_idx d) (junior_indices sch))
         \<longleftrightarrow> (0 < length (filter (\<lambda>x. x = ''Junior'') (working_roles sch v d))
               \<longrightarrow> 1 \<le> length (filter (\<lambda>x. x = ''Senior'') (working_roles sch v d)))"
proof -
  let ?S = "length (filter (\<lambda>x. x = ''Senior'') (working_roles sch v d))"
  have S: "sum_list (map (\<lambda>i. v (Shift i d)) (senior_indices sch)) = int ?S"
    using role_sum [OF bin, of "''Senior''"] by (simp add: sch init_indices init_fields)
  have J: "length (filter (\<lambda>x. x = ''Junior'') (working_roles sch v d))
             = length (filter (\<lambda>i. v (Shift i d) = 1) (junior_indices sch))"
    using role_count [of v d "''Junior''" sch] by (simp add: sch init_indices init_fields)
  have binJ: "\<forall>j\<in>set (junior_indices sch). v (Shift j d) = 0 \<or> v (Shift j d) = 1"
    using bin by (auto simp: sch init_indices init_fields binary_on_day_def role_indices_def list_all_iff)
  have "list_all (holds (v(IsPair d := p))) (map (\<lambda>j_idx. junior_constraint sch j_idx d) (junior_indices sch))
        \<longleftrightarrow> (\<forall>j\<in>set (junior_indices sch). v (Shift j d) \<le> int ?S)"
    by (simp add: list_all_iff junior_constraint_def role_working_def comp_def S)
  also have "\<dots> \<longleftrightarrow> ((\<exists>j\<in>set (junior_indices sch). v (Shift j d) = 1) \<longrightarrow> 1 \<le> ?S)"
    using binJ by (auto; fastforce)
  also have "(\<exists>j\<in>set (junior_indices sch). v (Shift j d) = 1)
             \<longleftrightarrow> 0 < length (filter (\<lambda>x. x = ''Junior'') (working_roles sch v d))"
    unfolding J by (simp add: filter_empty_conv)
  finally show ?thesis .
qed

lemma day_constraints_posted:
  assumes "d < nat (num_days sch)"
  shows "set (day_constraints sch d) \<subseteq> set (constraints (build_model sch))"
proof -
  have d: "d \<in> set (day_range sch)"
    using assms by (simp add: day_range_def)
  then have "set (coverage_constraints sch d) \<subseteq> set (concat (map (coverage_constraints sch) (day_range sch)))"
    by auto
  moreover have "set (map (\<lambda>j_idx. junior_constraint sch j_idx d) (junior_indices sch))
                   \<subseteq> set (junior_constraints sch)"
    using d by (auto simp: junior_constraints_def)
  ultimately show ?thesis
    by (auto simp: day_constraints_def build_model_def)
qed

lemma covered_iff:
  assumes sch: "sch = OnCallScheduler_init staff start n"
      and bin: "binary_on_day sch v d"
  shows "(\<exists>p\<in>{0, 1}. list_all (holds (v(IsPair d := p))) (day_constraints sch d)) \<longleftrightarrow> covered sch v d"
  unfolding day_constraints_def list_all_append covered_def
    coverage_holds_iff [OF sch bin] junior_holds_iff [OF sch bin]
  using coverage_arith [of "working_roles sch v d"] by simp

text \<open>
  Claim C2. For a day of the block and a 0/1 assignment to the day's shift variables, the
  constraints posted for the day can be satisfied by some value of the auxiliary Boolean
  \<^verbatim>\<open>pair_d\<close> if and only if the staff working the day are exactly one Intermediate,
  or exactly one Senior, or exactly one Senior together with exactly one Junior. The
  constraints of the day are constraints of the model the builder returns.
\<close>

theorem day_constraints_express_coverage:
  assumes sch: "sch = OnCallScheduler_init staff start n"
      and day: "d < nat n"
      and bin: "binary_on_day sch v d"
  shows "set (day_constraints sch d) \<subseteq> set (constraints (build_model sch))
       \<and> ((\<exists>p\<in>{0, 1}. list_all (holds (v(IsPair d := p))) (day_constraints sch d))
            \<longleftrightarrow> covered sch v d)"
proof -
  have "d < nat (num_days sch)"
    using day by (simp add: sch init_fields)
  then have posted: "set (day_constraints sch d) \<subseteq> set (constraints (build_model sch))"
    by (rule day_constraints_posted)
  have "(\<exists>p\<in>{0, 1}. list_all (holds (v(IsPair d := p))) (day_constraints sch d)) \<longleftrightarrow> covered sch v d"
    using sch bin by (rule covered_iff)
  with posted show ?thesis by simp
qed

theorem day_constraints_express_coverage_witness:
  "binary_on_day ex_sch ex_val 0
   \<and> covered ex_sch ex_val 0
   \<and> (\<exists>p\<in>{0, 1}. list_all (holds (ex_val(IsPair 0 := p))) (day_constraints ex_sch 0))
   \<and> binary_on_day ex_sch crowd_val 0
   \<and> \<not> covered ex_sch crowd_val 0
   \<and> \<not> (\<exists>p\<in>{0, 1}. list_all (holds (crowd_val(IsPair 0 := p))) (day_constraints ex_sch 0))"
proof -
  have l: "(0::nat) < nat 7" by simp
  have b1: "binary_on_day ex_sch ex_val 0" by code_simp
  have c1: "covered ex_sch ex_val 0" by code_simp
  have b2: "binary_on_day ex_sch crowd_val 0" by code_simp
  have c2: "\<not> covered ex_sch crowd_val 0" by code_simp
  show ?thesis
    using b1 c1 b2 c2
      day_constraints_express_coverage [OF ex_sch_def l b1]
      day_constraints_express_coverage [OF ex_sch_def l b2]
    by simp
qed

section \<open>Successful results\<close>

lemma sound_check_solver: "sound (check_solver cand)"
  by (simp add: sound_def check_solver_def)

lemma ex_val_satisfies: "satisfies (build_model ex_sch) ex_val"
  by code_simp

lemma ex_run:
  "generate_schedule (check_solver ex_val) 0 ex_sch (Some 1) =
     Success 739222 739228 (build_schedule ex_sch ex_val) (build_assignments ex_sch ex_val)"
proof -
  have "check_solver ex_val (build_model (OnCallScheduler_init ex_staff 739222 7)) (solver_seed 0 (Some 1))
          = (FEASIBLE, ex_val)"
    using ex_val_satisfies by (simp add: check_solver_def ex_sch_def)
  from generate_schedule_init_ok [where solve = "check_solver ex_val", OF this] show ?thesis
    by (simp add: ex_sch_def)
qed

lemma generate_schedule_success:
  assumes "generate_schedule solve now sch seed = Success sd ed sched asg"
  obtains st val where "solve (build_model sch) (solver_seed now seed) = (st, val)"
    and "st = OPTIMAL \<or> st = FEASIBLE"
    and "sched = build_schedule sch val" and "asg = build_assignments sch val"
    and "int (length sched) = num_days sch"
    and "sd = start_date sch" and "ed = end_date sch"
  using assms
  by (cases "solve (build_model sch) (solver_seed now seed)")
     (auto simp: generate_schedule_def Let_def split: if_splits)

text \<open>
  Claim C3. In a successful result the keys of the schedule map are the dates of the block,
  \<^verbatim>\<open>start_date\<close> up to \<^verbatim>\<open>start_date + num_days - 1\<close>, each exactly once, so the
  map has \<^verbatim>\<open>num_days\<close> entries. Whenever the solver reports a solution and the map
  built from it has another number of entries, the function answers no_solution with the
  generation error instead of success.
\<close>

theorem schedule_holds_every_block_date_once:
  "(generate_schedule solve now (OnCallScheduler_init staff start n) seed = Success sd ed sched asg
      \<longrightarrow> map fst sched = map (\<lambda>i. start + int i) [0..<nat n]
        \<and> distinct (map fst sched)
        \<and> int (length sched) = n)
   \<and> (solve' (build_model sch) (solver_seed now' seed') = (st, val)
        \<and> (st = OPTIMAL \<or> st = FEASIBLE)
        \<and> int (length (build_schedule sch val)) \<noteq> num_days sch
      \<longrightarrow> generate_schedule solve' now' sch seed'
            = NoSolution (GenerationError (num_days sch) (length (build_schedule sch val))))"
proof (intro conjI impI)
  assume run: "generate_schedule solve now (OnCallScheduler_init staff start n) seed = Success sd ed sched asg"
  then obtain val' where sched: "sched = build_schedule (OnCallScheduler_init staff start n) val'"
    and len: "int (length sched) = num_days (OnCallScheduler_init staff start n)"
    by (rule generate_schedule_success)
  show keys: "map fst sched = map (\<lambda>i. start + int i) [0..<nat n]"
    by (simp add: sched build_schedule_init comp_def)
  show "distinct (map fst sched)"
    unfolding keys by (simp add: distinct_map inj_on_def)
  show "int (length sched) = n"
    using len by (simp add: init_fields)
next
  assume "solve' (build_model sch) (solver_seed now' seed') = (st, val)
        \<and> (st = OPTIMAL \<or> st = FEASIBLE)
        \<and> int (length (build_schedule sch val)) \<noteq> num_days sch"
  then show "generate_schedule solve' now' sch seed'
            = NoSolution (GenerationError (num_days sch) (length (build_schedule sch val)))"
    by (auto simp: generate_schedule_def Let_def)
qed

theorem schedule_holds_every_block_date_once_witness:
  "generate_schedule (check_solver ex_val) 0 ex_sch (Some 1) =
     Success 739222 739228 (build_schedule ex_sch ex_val) (build_assignments ex_sch ex_val)
   \<and> map fst (build_schedule ex_sch ex_val)
       = [739222, 739223, 739224, 739225, 739226, 739227, 739228]
   \<and> distinct (map fst (build_schedule ex_sch ex_val))
   \<and> length (build_schedule ex_sch ex_val) = 7
   \<and> check_solver (ones []) (build_model (OnCallScheduler_init idle_staff 739222 (- 1)))
        (solver_seed 0 None) = (FEASIBLE, ones [])
   \<and> generate_schedule (check_solver (ones [])) 0 (OnCallScheduler_init idle_staff 739222 (- 1)) None
       = NoSolution (GenerationError (- 1) 0)"
proof -
  have dates: "map (\<lambda>i. 739222 + int i) [0..<nat 7]
                 = [739222, 739223, 739224, 739225, 739226, 739227, 739228]"
    by code_simp
  have run2: "check_solver (ones []) (build_model (OnCallScheduler_init idle_staff 739222 (- 1)))
        (solver_seed 0 None) = (FEASIBLE, ones [])"
  proof -
    have "satisfies (build_model (OnCallScheduler_init idle_staff 739222 (- 1))) (ones [])"
      by code_simp
    then show ?thesis by (simp add: check_solver_def)
  qed
  have short: "build_schedule (OnCallScheduler_init idle_staff 739222 (- 1)) (ones []) = []"
    by code_simp
  have n: "num_days (OnCallScheduler_init idle_staff 739222 (- 1)) = - 1"
    by (simp add: init_fields)
  note t = schedule_holds_every_block_date_once
      [where solve = "check_solver ex_val" and now = 0 and staff = ex_staff and start = 739222
         and n = 7 and seed = "Some 1" and sd = 739222 and ed = 739228
         and sched = "build_schedule ex_sch ex_val" and asg = "build_assignments ex_sch ex_val"
         and solve' = "check_solver (ones [])" and now' = 0 and seed' = None
         and sch = "OnCallScheduler_init idle_staff 739222 (- 1)" and st = FEASIBLE and val = "ones []"]
  show ?thesis
    using t ex_run run2 dates by (simp add: ex_sch_def short n)
qed

section \<open>Fairness balances\<close>

lemma sound_satisfies:
  assumes "sound solve" and "solve m seed = (st, val)" and "st = OPTIMAL \<or> st = FEASIBLE"
  shows "satisfies m val"
  using assms(1) [unfolded sound_def, rule_format, of m seed] assms(2,3) by simp

lemma satisfies_holds: "satisfies m v \<Longrightarrow> c \<in> set (constraints m) \<Longrightarrow> holds v c"
  by (simp add: satisfies_def list_all_iff)

lemma balance_spread:
  assumes sat: "satisfies (build_model sch) v"
      and posted: "set (balance_constraints sch lo hi idxs) \<subseteq> set (constraints (build_model sch))"
      and some: "idxs \<noteq> []" and many: "1 < num_staff sch"
      and s: "s < num_staff sch" and t: "t < num_staff sch"
  shows "sum_list (map (\<lambda>d. v (Shift s d)) idxs) - sum_list (map (\<lambda>d. v (Shift t d)) idxs) \<le> 1"
proof -
  have all: "\<And>c. c \<in> set (balance_constraints sch lo hi idxs) \<Longrightarrow> holds v c"
    using sat posted by (auto intro: satisfies_holds)
  have "holds v (Constr (V hi) GE (day_shifts idxs s) None)"
    using some many s by (intro all) (auto simp: balance_constraints_def)
  then have up: "sum_list (map (\<lambda>d. v (Shift s d)) idxs) \<le> v hi"
    by (simp add: day_shifts_def comp_def)
  have "holds v (Constr (V lo) LE (day_shifts idxs t) None)"
    using some many t by (intro all) (auto simp: balance_constraints_def)
  then have low: "v lo \<le> sum_list (map (\<lambda>d. v (Shift t d)) idxs)"
    by (simp add: day_shifts_def comp_def)
  have "holds v (Constr (Minus (V hi) (V lo)) LE (C 1) None)"
    using some many by (intro all) (auto simp: balance_constraints_def)
  then have "v hi - v lo \<le> 1" by simp
  with up low show ?thesis by linarith
qed

lemma update_entries:
  "(k', v') \<in> set (AList.update k v al) \<Longrightarrow> (k', v') = (k, v) \<or> (k', v') \<in> set al"
  by (induction al) (auto split: if_splits)

lemma foldl_update_entries:
  "(k, v) \<in> set (foldl (\<lambda>a x. AList.update (f x) (g x) a) acc xs) \<Longrightarrow>
     (k, v) \<in> set acc \<or> (\<exists>x\<in>set xs. k = f x \<and> v = g x)"
proof (induction xs arbitrary: acc)
  case Nil
  then show ?case by simp
next
  case (Cons x xs)
  from Cons.IH [of "AList.update (f x) (g x) acc"] Cons.prems
  have "(k, v) \<in> set (AList.update (f x) (g x) acc) \<or> (\<exists>y\<in>set xs. k = f y \<and> v = g y)"
    by simp
  then show ?case
    using update_entries [of k v "f x" "g x" acc] by auto
qed

lemma update_key_set: "fst ` set (AList.update k v al) = insert k (fst ` set al)"
  by (induction al) auto

lemma foldl_update_keys:
  "fst ` set (foldl (\<lambda>a x. AList.update (f x) (g x) a) acc xs) = fst ` set acc \<union> f ` set xs"
proof (induction xs arbitrary: acc)
  case Nil
  then show ?case by simp
next
  case (Cons x xs)
  have "fst ` set (AList.update (f x) (g x) acc) = insert (f x) (fst ` set acc)"
    by (rule update_key_set)
  with Cons.IH [of "AList.update (f x) (g x) acc"] show ?case by auto
qed

lemma build_assignments_entries:
  assumes "(a, t) \<in> set (build_assignments sch val)"
  obtains s where "s < num_staff sch" and "a = name (staff_members sch ! s)"
    and "t = staff_tally sch val s"
  using foldl_update_entries [OF assms [unfolded build_assignments_def]] by auto

lemma build_assignments_nonempty:
  assumes "0 < num_staff sch"
  shows "build_assignments sch val \<noteq> []"
proof
  assume "build_assignments sch val = []"
  then have "fst ` set (build_assignments sch val) = {}" by simp
  then show False
    using assms unfolding build_assignments_def foldl_update_keys by simp
qed

lemma spread_of_entries:
  fixes f :: "tally \<Rightarrow> int"
  assumes ne: "asg \<noteq> []"
      and pair: "\<And>a ta b tb. (a, ta) \<in> set asg \<Longrightarrow> (b, tb) \<in> set asg \<Longrightarrow> f ta - f tb \<le> 1"
  shows "Max (set (map (f \<circ> snd) asg)) - Min (set (map (f \<circ> snd) asg)) \<le> 1"
proof -
  let ?A = "set (map (f \<circ> snd) asg)"
  have fin: "finite ?A" and nonempty: "?A \<noteq> {}" using ne by simp_all
  from Max_in [OF fin nonempty] obtain a ta where hi: "(a, ta) \<in> set asg" "Max ?A = f ta"
    by auto
  from Min_in [OF fin nonempty] obtain b tb where lo: "(b, tb) \<in> set asg" "Min ?A = f tb"
    by auto
  from pair [OF hi(1) lo(1)] hi(2) lo(2) show ?thesis by simp
qed

lemma init_weekend_days:
  "weekend_day_indices (OnCallScheduler_init staff start n) \<noteq> [] \<longleftrightarrow>
     (\<exists>d\<in>set (dates (OnCallScheduler_init staff start n)). weekday d = 5 \<or> weekday d = 6)"
  by (auto simp: OnCallScheduler_init_def Let_def filter_empty_conv)

lemma init_friday_days:
  "friday_day_indices (OnCallScheduler_init staff start n) \<noteq> [] \<longleftrightarrow>
     (\<exists>d\<in>set (dates (OnCallScheduler_init staff start n)). weekday d = 4)"
proof -
  have eq: "\<And>w::int. (w \<noteq> 5 \<and> w \<noteq> 6 \<and> w = 4) = (w = 4)" by auto
  show ?thesis
    by (simp add: OnCallScheduler_init_def Let_def filter_empty_conv eq)
qed

text \<open>
  Claim C5. In a successful result for a roster of at least two staff: if the block
  contains a Saturday or Sunday, the largest and the smallest \<^verbatim>\<open>weekend_shifts\<close> of the
  returned tallies differ by at most 1; if the block contains a Friday, so do the largest
  and the smallest \<^verbatim>\<open>friday_shifts\<close>. The solver is taken to be sound: what it reports
  as a solution satisfies the model.
\<close>

theorem weekend_and_friday_balance:
  assumes sch: "sch = OnCallScheduler_init staff start n"
      and snd: "sound solve"
      and run: "generate_schedule solve now sch seed = Success sd ed sched asg"
      and two: "2 \<le> length staff"
  shows "((\<exists>d\<in>set (dates sch). weekday d = 5 \<or> weekday d = 6) \<longrightarrow>
            Max (set (map (weekend_shifts \<circ> snd) asg)) - Min (set (map (weekend_shifts \<circ> snd) asg)) \<le> 1)
       \<and> ((\<exists>d\<in>set (dates sch). weekday d = 4) \<longrightarrow>
            Max (set (map (friday_shifts \<circ> snd) asg)) - Min (set (map (friday_shifts \<circ> snd) asg)) \<le> 1)"
proof -
  from run obtain st val where solved: "solve (build_model sch) (solver_seed now seed) = (st, val)"
    and ok: "st = OPTIMAL \<or> st = FEASIBLE" and asg: "asg = build_assignments sch val"
    by (rule generate_schedule_success)
  have sat: "satisfies (build_model sch) val"
    using snd solved ok by (rule sound_satisfies)
  have many: "1 < num_staff sch"
    using two by (simp add: sch init_fields)
  then have ne: "asg \<noteq> []"
    unfolding asg by (intro build_assignments_nonempty) simp
  show ?thesis
  proof (intro conjI impI)
    assume "\<exists>d\<in>set (dates sch). weekday d = 5 \<or> weekday d = 6"
    then have some: "weekend_day_indices sch \<noteq> []"
      unfolding sch init_weekend_days .
    have posted: "set (balance_constraints sch MinWeekend MaxWeekend (weekend_day_indices sch))
                    \<subseteq> set (constraints (build_model sch))"
      by (auto simp: build_model_def)
    show "Max (set (map (weekend_shifts \<circ> snd) asg)) - Min (set (map (weekend_shifts \<circ> snd) asg)) \<le> 1"
      unfolding asg
    proof (rule spread_of_entries [OF ne, unfolded asg])
      fix a ta b tb
      assume "(a, ta) \<in> set (build_assignments sch val)" and "(b, tb) \<in> set (build_assignments sch val)"
      then obtain s t where "s < num_staff sch" "ta = staff_tally sch val s"
        "t < num_staff sch" "tb = staff_tally sch val t"
        by (elim build_assignments_entries)
      with balance_spread [OF sat posted some many, of s t]
      show "weekend_shifts ta - weekend_shifts tb \<le> 1"
        by (simp add: staff_tally_def)
    qed
  next
    assume "\<exists>d\<in>set (dates sch). weekday d = 4"
    then have some: "friday_day_indices sch \<noteq> []"
      unfolding sch init_friday_days .
    have posted: "set (balance_constraints sch MinFriday MaxFriday (friday_day_indices sch))
                    \<subseteq> set (constraints (build_model sch))"
      by (auto simp: build_model_def)
    show "Max (set (map (friday_shifts \<circ> snd) asg)) - Min (set (map (friday_shifts \<circ> snd) asg)) \<le> 1"
      unfolding asg
    proof (rule spread_of_entries [OF ne, unfolded asg])
      fix a ta b tb
      assume "(a, ta) \<in> set (build_assignments sch val)" and "(b, tb) \<in> set (build_assignments sch val)"
      then obtain s t where "s < num_staff sch" "ta = staff_tally sch val s"
        "t < num_staff sch" "tb = staff_tally sch val t"
        by (elim build_assignments_entries)
      with balance_spread [OF sat posted some many, of s t]
      show "friday_shifts ta - friday_shifts tb \<le> 1"
        by (simp add: staff_tally_def)
    qed
  qed
qed

theorem weekend_and_friday_balance_witness:
  "sound (check_solver ex_val)
   \<and> generate_schedule (check_solver ex_val) 0 ex_sch (Some 1) =
       Success 739222 739228 (build_schedule ex_sch ex_val) (build_assignments ex_sch ex_val)
   \<and> 2 \<le> length ex_staff
   \<and> (\<exists>d\<in>set (dates ex_sch). weekday d = 5 \<or> weekday d = 6)
   \<and> (\<exists>d\<in>set (dates ex_sch). weekday d = 4)
   \<and> map (weekend_shifts \<circ> snd) (build_assignments ex_sch ex_val) = [1, 1, 0, 0]
   \<and> map (friday_shifts \<circ> snd) (build_assignments ex_sch ex_val) = [0, 0, 1, 0]
   \<and> Max (set (map (weekend_shifts \<circ> snd) (build_assignments ex_sch ex_val)))
       - Min (set (map (weekend_shifts \<circ> snd) (build_assignments ex_sch ex_val))) \<le> 1
   \<and> Max (set (map (friday_shifts \<circ> snd) (build_assignments ex_sch ex_val)))
       - Min (set (map (friday_shifts \<circ> snd) (build_assignments ex_sch ex_val))) \<le> 1"
proof -
  have two: "2 \<le> length ex_staff" by (simp add: ex_staff_def)
  have we: "\<exists>d\<in>set (dates ex_sch). weekday d = 5 \<or> weekday d = 6" by code_simp
  have fr: "\<exists>d\<in>set (dates ex_sch). weekday d = 4" by code_simp
  have w: "map (weekend_shifts \<circ> snd) (build_assignments ex_sch ex_val) = [1, 1, 0, 0]" by code_simp
  have f: "map (friday_shifts \<circ> snd) (build_assignments ex_sch ex_val) = [0, 0, 1, 0]" by code_simp
  note t = weekend_and_friday_balance [OF ex_sch_def sound_check_solver ex_run two]
  from t we fr have
    "Max (set (map (weekend_shifts \<circ> snd) (build_assignments ex_sch ex_val)))
       - Min (set (map (weekend_shifts \<circ> snd) (build_assignments ex_sch ex_val))) \<le> 1"
    "Max (set (map (friday_shifts \<circ> snd) (build_assignments ex_sch ex_val)))
       - Min (set (map (friday_shifts \<circ> snd) (build_assignments ex_sch ex_val))) \<le> 1"
    by blast+
  with sound_check_solver ex_run two we fr w f show ?thesis by blast
qed

section \<open>Staff assignments are keyed by name\<close>

lemma dup_val_satisfies: "satisfies (build_model dup_sch) dup_val"
  by code_simp

lemma dup_solved:
  "check_solver dup_val (build_model dup_sch) (solver_seed 0 (Some 1)) = (FEASIBLE, dup_val)"
  using dup_val_satisfies by (simp add: check_solver_def)

lemma dup_run:
  "generate_schedule (check_solver dup_val) 0 dup_sch (Some 1) =
     Success 739222 739228 (build_schedule dup_sch dup_val) (build_assignments dup_sch dup_val)"
  using generate_schedule_init_ok [where solve = "check_solver dup_val", OF dup_solved [unfolded dup_sch_def]]
  by (simp add: dup_sch_def)

text \<open>
  Claim C7 fails as stated: with two staff records named Lee the result holds one entry
  under that name, with the tallies of the second record; the days the first record worked
  are in no entry.
\<close>

theorem duplicate_names_lose_a_tally:
  "generate_schedule (check_solver dup_val) 0 dup_sch (Some 1) =
     Success 739222 739228 (build_schedule dup_sch dup_val) (build_assignments dup_sch dup_val)
   \<and> map name dup_staff = [''Lee'', ''Lee'', ''Park'']
   \<and> map (\<lambda>e. (fst e, actual (snd e), days (snd e))) (build_assignments dup_sch dup_val)
       = [(''Lee'', 2, [739223, 739226]), (''Park'', 2, [739224, 739227])]
   \<and> days (staff_tally dup_sch dup_val 0) = [739222, 739225, 739228]"
proof -
  have "map name dup_staff = [''Lee'', ''Lee'', ''Park'']"
    by (simp add: dup_staff_def)
  moreover have "map (\<lambda>e. (fst e, actual (snd e), days (snd e))) (build_assignments dup_sch dup_val)
       = [(''Lee'', 2, [739223, 739226]), (''Park'', 2, [739224, 739227])]"
    by code_simp
  moreover have "days (staff_tally dup_sch dup_val 0) = [739222, 739225, 739228]"
    by code_simp
  ultimately show ?thesis using dup_run by simp
qed

lemma map_of_foldl_update:
  "map_of (foldl (\<lambda>a x. AList.update (f x) (g x) a) acc xs) = foldl (\<lambda>m x. m(f x \<mapsto> g x)) (map_of acc) xs"
  by (induction xs arbitrary: acc) (simp_all add: update_conv')

lemma foldl_upd_other:
  "\<forall>z\<in>set zs. f z \<noteq> k \<Longrightarrow> foldl (\<lambda>m x. m(f x \<mapsto> g x)) m zs k = m k"
  by (induction zs arbitrary: m) auto

lemma foldl_upd_last:
  assumes "s < N" and "\<forall>t. s < t \<and> t < N \<longrightarrow> f t \<noteq> f s"
  shows "foldl (\<lambda>m x. m(f x \<mapsto> g x)) m [0..<N] (f s) = Some (g s)"
proof -
  have split: "[0..<N] = [0..<s] @ s # [Suc s..<N]"
    using assms(1) by (metis le0 le_add_diff_inverse less_imp_le_nat upt_add_eq_append upt_conv_Cons)
  have "\<forall>z\<in>set [Suc s..<N]. f z \<noteq> f s"
    using assms(2) by auto
  then show ?thesis
    unfolding split by (simp add: foldl_upd_other)
qed

lemma distinct_foldl_update:
  "distinct (map fst acc) \<Longrightarrow> distinct (map fst (foldl (\<lambda>a x. AList.update (f x) (g x) a) acc xs))"
  by (induction xs arbitrary: acc) (simp_all add: distinct_update)

lemma role_indices_rename:
  "role_indices r (map (\<lambda>st. st\<lparr>name := f st\<rparr>) staff) = role_indices r staff"
  by (auto simp: role_indices_def intro: filter_cong)

lemma build_model_rename:
  "build_model (OnCallScheduler_init (map (\<lambda>st. st\<lparr>name := f st\<rparr>) staff) start n)
     = build_model (OnCallScheduler_init staff start n)"
proof -
  let ?a = "OnCallScheduler_init (map (\<lambda>st. st\<lparr>name := f st\<rparr>) staff) start n"
  let ?b = "OnCallScheduler_init staff start n"
  have n: "num_staff ?a = num_staff ?b" "day_range ?a = day_range ?b" "num_days ?a = num_days ?b"
    by (simp_all add: init_fields)
  have idx: "junior_indices ?a = junior_indices ?b" "senior_indices ?a = senior_indices ?b"
    "intermediate_indices ?a = intermediate_indices ?b"
    "weekend_day_indices ?a = weekend_day_indices ?b" "friday_day_indices ?a = friday_day_indices ?b"
    "date_to_index ?a = date_to_index ?b"
    by (simp_all add: OnCallScheduler_init_def Let_def role_indices_rename)
  have cov: "coverage_constraints ?a = coverage_constraints ?b"
    by (rule ext) (simp add: coverage_constraints_def total_working_def idx n)
  have b2b: "back_to_back_constraints ?a = back_to_back_constraints ?b"
    by (simp add: back_to_back_constraints_def n)
  have un: "unavailable_constraints ?a = unavailable_constraints ?b"
    unfolding unavailable_constraints_def n idx
    by (rule arg_cong [where f = concat], rule map_cong) (simp_all add: init_fields)
  have "junior_constraint ?a = junior_constraint ?b"
    by (intro ext) (simp add: junior_constraint_def idx)
  then have jun: "junior_constraints ?a = junior_constraints ?b"
    by (simp add: junior_constraints_def idx n)
  have tgt: "target_constraints ?a = target_constraints ?b"
    unfolding target_constraints_def n
    by (rule arg_cong [where f = concat], rule map_cong)
       (simp_all add: init_fields total_shifts_def Let_def)
  show ?thesis
    by (simp add: build_model_def shift_vars_def balance_vars_def balance_constraints_def
        cov b2b un jun tgt idx n)
qed

text \<open>
  Claim C7, amended. Duplicate names are tolerated, and the constraint model tells staff
  apart by position: renaming the records changes nothing in the model, so two records
  with one name have decision variables of their own. The returned
  \<^verbatim>\<open>staff_assignments\<close> is keyed by name: it has one entry for every distinct name,
  and the entry under a name holds the tallies of the last record with that name.
\<close>

theorem duplicate_names_share_one_entry:
  assumes sch: "sch = OnCallScheduler_init staff start n"
      and solved: "solve (build_model sch) (solver_seed now seed) = (st, val)"
      and run: "generate_schedule solve now sch seed = Success sd ed sched asg"
  shows "build_model (OnCallScheduler_init (map (\<lambda>st. st\<lparr>name := rename st\<rparr>) staff) start n)
           = build_model sch
       \<and> distinct (map fst asg)
       \<and> set (map fst asg) = set (map name staff)
       \<and> (\<forall>s<length staff.
             (\<forall>t. s < t \<and> t < length staff \<longrightarrow> name (staff ! t) \<noteq> name (staff ! s))
             \<longrightarrow> map_of asg (name (staff ! s)) = Some (staff_tally sch val s))"
proof -
  from run obtain st' val' where "solve (build_model sch) (solver_seed now seed) = (st', val')"
    and "asg = build_assignments sch val'"
    by (rule generate_schedule_success)
  with solved have asg: "asg = build_assignments sch val" by simp
  have members: "staff_members sch = staff" "num_staff sch = length staff"
    by (simp_all add: sch init_fields)
  have d: "distinct (map fst asg)"
    unfolding asg build_assignments_def by (rule distinct_foldl_update) simp
  have "fst ` set asg = (\<lambda>s. name (staff ! s)) ` set [0..<length staff]"
    unfolding asg build_assignments_def foldl_update_keys members by simp
  also have "\<dots> = set (map (\<lambda>s. name (staff ! s)) [0..<length staff])"
    by simp
  also have "map (\<lambda>s. name (staff ! s)) [0..<length staff] = map name staff"
    by (rule nth_equalityI) simp_all
  finally have keys: "set (map fst asg) = set (map name staff)" by simp
  have last: "map_of asg (name (staff ! s)) = Some (staff_tally sch val s)"
    if "s < length staff" "\<forall>t. s < t \<and> t < length staff \<longrightarrow> name (staff ! t) \<noteq> name (staff ! s)" for s
    unfolding asg build_assignments_def map_of_foldl_update members
    using that by (rule foldl_upd_last)
  show ?thesis
    using d keys last by (simp add: sch build_model_rename)
qed

theorem duplicate_names_share_one_entry_witness:
  "check_solver dup_val (build_model dup_sch) (solver_seed 0 (Some 1)) = (FEASIBLE, dup_val)
   \<and> generate_schedule (check_solver dup_val) 0 dup_sch (Some 1) =
       Success 739222 739228 (build_schedule dup_sch dup_val) (build_assignments dup_sch dup_val)
   \<and> build_model (OnCallScheduler_init (map (\<lambda>st. st\<lparr>name := ''Kim''\<rparr>) dup_staff) 739222 7)
       = build_model dup_sch
   \<and> distinct (map fst (build_assignments dup_sch dup_val))
   \<and> set (map fst (build_assignments dup_sch dup_val)) = {''Lee'', ''Park''}
   \<and> map_of (build_assignments dup_sch dup_val) ''Lee'' = Some (staff_tally dup_sch dup_val 1)
   \<and> map_of (build_assignments dup_sch dup_val) ''Park'' = Some (staff_tally dup_sch dup_val 2)"
proof -
  note t = duplicate_names_share_one_entry
      [where solve = "check_solver dup_val" and rename = "\<lambda>st. ''Kim''", OF dup_sch_def dup_solved dup_run]
  have len: "length dup_staff = 3" and names: "set (map name dup_staff) = {''Lee'', ''Park''}"
    and n1: "name (dup_staff ! 1) = ''Lee''" and n2: "name (dup_staff ! 2) = ''Park''"
    by (simp_all add: dup_staff_def)
  have last1: "\<forall>t. 1 < t \<and> t < length dup_staff \<longrightarrow> name (dup_staff ! t) \<noteq> name (dup_staff ! 1)"
  proof (intro allI impI)
    fix t assume "1 < t \<and> t < length dup_staff"
    then have "t = 2" by (simp add: len)
    then show "name (dup_staff ! t) \<noteq> name (dup_staff ! 1)" by (simp add: dup_staff_def)
  qed
  have last2: "\<forall>t. 2 < t \<and> t < length dup_staff \<longrightarrow> name (dup_staff ! t) \<noteq> name (dup_staff ! 2)"
    using len by auto
  from t have lookup: "\<forall>s<length dup_staff.
             (\<forall>t. s < t \<and> t < length dup_staff \<longrightarrow> name (dup_staff ! t) \<noteq> name (dup_staff ! s))
             \<longrightarrow> map_of (build_assignments dup_sch dup_val) (name (dup_staff ! s))
                 = Some (staff_tally dup_sch dup_val s)"
    by blast
  have l1: "map_of (build_assignments dup_sch dup_val) ''Lee'' = Some (staff_tally dup_sch dup_val 1)"
  proof -
    have "1 < length dup_staff" by (simp add: len)
    from lookup [rule_format, OF this last1 [rule_format]] show ?thesis unfolding n1 .
  qed
  have l2: "map_of (build_assignments dup_sch dup_val) ''Park'' = Some (staff_tally dup_sch dup_val 2)"
  proof -
    have "2 < length dup_staff" by (simp add: len)
    from lookup [rule_format, OF this last2 [rule_format]] show ?thesis unfolding n2 .
  qed
  note model = t [THEN conjunct1]
  note dist = t [THEN conjunct2, THEN conjunct1]
  have keys: "set (map fst (build_assignments dup_sch dup_val)) = {''Lee'', ''Park''}"
    using t [THEN conjunct2, THEN conjunct2, THEN conjunct1] unfolding names .
  show ?thesis
    by (intro conjI dup_solved dup_run model dist keys l1 l2)
qed

section \<open>Decoded days against the schedule map\<close>

lemma satisfies_domain: "satisfies m v \<Longrightarrow> (x, lo, hi) \<in> set (variables m) \<Longrightarrow> lo \<le> v x \<and> v x \<le> hi"
  by (auto simp: satisfies_def list_all_iff in_domain_def)

lemma satisfies_binary:
  assumes sat: "satisfies (build_model sch) v" and d: "d < nat (num_days sch)"
  shows "binary_on_day sch v d"
proof -
  have "v (Shift s d) = 0 \<or> v (Shift s d) = 1" if "s < num_staff sch" for s
  proof -
    have "(Shift s d, 0, 1) \<in> set (map (\<lambda>d. (Shift s d, 0, 1)) (day_range sch))"
      using d by (simp add: day_range_def)
    then have "(Shift s d, 0, 1) \<in> set (shift_vars sch)"
      using that unfolding shift_vars_def set_concat by (auto intro!: bexI [of _ s])
    then have "(Shift s d, 0, 1) \<in> set (variables (build_model sch))"
      by (simp add: build_model_def)
    from satisfies_domain [OF sat this] show ?thesis by linarith
  qed
  then show ?thesis by (simp add: binary_on_day_def list_all_iff)
qed

lemma satisfies_covered:
  assumes sch: "sch = OnCallScheduler_init staff start n"
      and sat: "satisfies (build_model sch) v" and d: "d < nat n"
  shows "covered sch v d"
proof -
  have d': "d < nat (num_days sch)" using d by (simp add: sch init_fields)
  have bin: "binary_on_day sch v d" using sat d' by (rule satisfies_binary)
  have "(IsPair d, 0, 1) \<in> set (variables (build_model sch))"
    using d' by (simp add: build_model_def day_range_def)
  from satisfies_domain [OF sat this] have p: "v (IsPair d) \<in> {0, 1}" by auto
  have "list_all (holds v) (day_constraints sch d)"
    using day_constraints_posted [OF d'] sat by (auto simp: list_all_iff intro: satisfies_holds)
  then have "list_all (holds (v(IsPair d := v (IsPair d)))) (day_constraints sch d)" by simp
  with p have "\<exists>p\<in>{0, 1}. list_all (holds (v(IsPair d := p))) (day_constraints sch d)" by blast
  then show ?thesis using covered_iff [OF sch bin] by simp
qed

lemma entry_counts_workers:
  assumes "covered sch v d"
  shows "(case schedule_entry sch v d of Name _ \<Rightarrow> {#x#} | PairRecord _ _ _ \<Rightarrow> {#x, x#})
           = replicate_mset (length (working_indices sch v d)) x"
proof -
  have roles: "working_roles sch v d = map snd (working_staff sch v d)"
    by (simp add: working_roles_def working_staff_def comp_def)
  have len: "length (working_indices sch v d) = length (working_staff sch v d)"
    by (simp add: working_staff_def)
  show ?thesis
  proof (cases "working_staff sch v d")
    case Nil
    with assms roles show ?thesis by (simp add: covered_def)
  next
    case (Cons a ws)
    note outer = Cons
    show ?thesis
    proof (cases ws)
      case Nil
      with outer show ?thesis by (simp add: schedule_entry_def len)
    next
      case (Cons b ws')
      note mid = Cons
      show ?thesis
      proof (cases ws')
        case Nil
        with outer mid assms roles show ?thesis
          by (auto simp: schedule_entry_def len covered_def)
      next
        case (Cons c ws'')
        with outer mid assms roles show ?thesis by (simp add: covered_def)
      qed
    qed
  qed
qed

lemma mset_map_filter_sum:
  "mset (map f (filter P ds)) = sum_list (map (\<lambda>d. if P d then {#f d#} else {#}) ds)"
  by (induction ds) simp_all

lemma replicate_count_sum:
  "replicate_mset (length (filter Q ss)) x = sum_list (map (\<lambda>s. if Q s then {#x#} else {#}) ss)"
  by (induction ss) simp_all

lemma sum_list_swap:
  fixes F :: "'a \<Rightarrow> 'b \<Rightarrow> 'c::comm_monoid_add"
  shows "sum_list (map (\<lambda>s. sum_list (map (F s) ds)) ss) = sum_list (map (\<lambda>d. sum_list (map (\<lambda>s. F s d) ss)) ds)"
  by (induction ss) (simp_all add: sum_list_addf)

lemma build_assignments_distinct:
  assumes "distinct (map name (staff_members sch))"
  shows "build_assignments sch val =
           map (\<lambda>s. (name (staff_members sch ! s), staff_tally sch val s)) [0..<num_staff sch]"
proof -
  have "map (\<lambda>s. name (staff_members sch ! s)) [0..<num_staff sch] = map name (staff_members sch)"
    unfolding num_staff_def by (rule nth_equalityI) simp_all
  with assms have "distinct (map (\<lambda>s. name (staff_members sch ! s)) [0..<num_staff sch])" by simp
  from foldl_update_distinct [OF this, of "[]"] show ?thesis
    by (simp add: build_assignments_def)
qed

text \<open>
  Claim C4 fails as stated: on the roster with two records named Lee the tallies of the
  result list four days while the schedule map stands for seven.
\<close>

theorem duplicate_names_break_day_count:
  "generate_schedule (check_solver dup_val) 0 dup_sch (Some 1) =
     Success 739222 739228 (build_schedule dup_sch dup_val) (build_assignments dup_sch dup_val)
   \<and> decoded_days (build_assignments dup_sch dup_val) = mset [739223, 739226, 739224, 739227]
   \<and> implied_dates (build_schedule dup_sch dup_val)
       = mset [739222, 739223, 739224, 739225, 739226, 739227, 739228]
   \<and> decoded_days (build_assignments dup_sch dup_val) \<noteq> implied_dates (build_schedule dup_sch dup_val)"
proof -
  have "decoded_days (build_assignments dup_sch dup_val) = mset [739223, 739226, 739224, 739227]"
    by code_simp
  moreover have "implied_dates (build_schedule dup_sch dup_val)
       = mset [739222, 739223, 739224, 739225, 739226, 739227, 739228]"
    by code_simp
  moreover have "decoded_days (build_assignments dup_sch dup_val)
       \<noteq> implied_dates (build_schedule dup_sch dup_val)"
    by code_simp
  ultimately show ?thesis using dup_run by blast
qed

text \<open>
  Claim C4, amended. In a successful result for a roster whose names are pairwise
  distinct, the days listed in the tallies, taken together as a multiset, are the dates the
  schedule map stands for, a solo day once and a pair day twice. The solver is taken to be
  sound.
\<close>

theorem decoded_days_match_schedule:
  assumes sch: "sch = OnCallScheduler_init staff start n"
      and snd: "sound solve"
      and names: "distinct (map name staff)"
      and run: "generate_schedule solve now sch seed = Success sd ed sched asg"
  shows "decoded_days asg = implied_dates sched"
proof -
  from run obtain st val where solved: "solve (build_model sch) (solver_seed now seed) = (st, val)"
    and ok: "st = OPTIMAL \<or> st = FEASIBLE"
    and sched: "sched = build_schedule sch val" and asg: "asg = build_assignments sch val"
    by (rule generate_schedule_success)
  have sat: "satisfies (build_model sch) val"
    using snd solved ok by (rule sound_satisfies)
  let ?N = "length staff" and ?n = "nat n"
  let ?date = "\<lambda>d. start + int d"
  let ?F = "\<lambda>s d. if val (Shift s d) = 1 then {#?date d#} else {#}"
  have "distinct (map name (staff_members sch))"
    using names by (simp add: sch init_fields)
  then have asg': "asg = map (\<lambda>s. (name (staff ! s), staff_tally sch val s)) [0..<?N]"
    unfolding asg by (simp add: build_assignments_distinct) (simp add: sch init_fields)
  have days: "mset (days (staff_tally sch val s)) = sum_list (map (?F s) [0..<?n])" for s
  proof -
    have "days (staff_tally sch val s) = map ?date (filter (\<lambda>d. val (Shift s d) = 1) [0..<?n])"
      by (simp add: staff_tally_def sch init_fields)
    then show ?thesis by (simp only: mset_map_filter_sum)
  qed
  have "decoded_days asg = sum_list (map (\<lambda>s. sum_list (map (?F s) [0..<?n])) [0..<?N])"
    by (simp add: decoded_days_def asg' comp_def days)
  also have "\<dots> = sum_list (map (\<lambda>d. sum_list (map (\<lambda>s. ?F s d) [0..<?N])) [0..<?n])"
    by (rule sum_list_swap)
  also have "\<dots> = sum_list (map (\<lambda>d. replicate_mset (length (working_indices sch val d)) (?date d)) [0..<?n])"
    by (simp add: replicate_count_sum working_indices_def sch init_fields)
  also have "\<dots> = sum_list (map (\<lambda>d. case schedule_entry sch val d of
                          Name _ \<Rightarrow> {#?date d#} | PairRecord _ _ _ \<Rightarrow> {#?date d, ?date d#}) [0..<?n])"
  proof (rule arg_cong [where f = sum_list], rule map_cong [OF refl])
    fix d assume "d \<in> set [0..<?n]"
    then have "d < nat n" by simp
    with sch sat have "covered sch val d" by (rule satisfies_covered)
    then show "replicate_mset (length (working_indices sch val d)) (?date d) =
          (case schedule_entry sch val d of Name _ \<Rightarrow> {#?date d#} | PairRecord _ _ _ \<Rightarrow> {#?date d, ?date d#})"
      by (simp add: entry_counts_workers)
  qed
  also have "\<dots> = implied_dates sched"
    unfolding sched sch build_schedule_init
    by (simp add: implied_dates_def comp_def cong: entry.case_cong)
  finally show ?thesis .
qed

theorem decoded_days_match_schedule_witness:
  "sound (check_solver ex_val)
   \<and> distinct (map name ex_staff)
   \<and> generate_schedule (check_solver ex_val) 0 ex_sch (Some 1) =
       Success 739222 739228 (build_schedule ex_sch ex_val) (build_assignments ex_sch ex_val)
   \<and> implied_dates (build_schedule ex_sch ex_val)
       = mset [739222, 739222, 739223, 739224, 739225, 739225, 739226, 739227, 739228]
   \<and> decoded_days (build_assignments ex_sch ex_val) = implied_dates (build_schedule ex_sch ex_val)"
proof -
  have names: "distinct (map name ex_staff)"
    by (simp add: ex_staff_def)
  have implied: "implied_dates (build_schedule ex_sch ex_val)
       = mset [739222, 739222, 739223, 739224, 739225, 739225, 739226, 739227, 739228]"
    by code_simp
  note t = decoded_days_match_schedule [OF ex_sch_def sound_check_solver names ex_run]
  show ?thesis
    by (intro conjI sound_check_solver names ex_run implied t)
qed

section \<open>The relaxation pass on concrete rosters\<close>

lemma sc5_band:
  "target_constraints (relax_targets sc5_sch) =
     [Constr (SumOf [Shift 0 0, Shift 0 1, Shift 0 2, Shift 0 3, Shift 0 4, Shift 0 5, Shift 0 6]) GE (C 6) None,
      Constr (SumOf [Shift 0 0, Shift 0 1, Shift 0 2, Shift 0 3, Shift 0 4, Shift 0 5, Shift 0 6]) LE (C 8) None,
      Constr (SumOf [Shift 1 0, Shift 1 1, Shift 1 2, Shift 1 3, Shift 1 4, Shift 1 5, Shift 1 6]) GE (C 6) None,
      Constr (SumOf [Shift 1 0, Shift 1 1, Shift 1 2, Shift 1 3, Shift 1 4, Shift 1 5, Shift 1 6]) LE (C 8) None]"
  by code_simp

lemma sc5_infeasible: "\<not> satisfies (build_model (relax_targets sc5_sch)) v"
proof
  assume sat: "satisfies (build_model (relax_targets sc5_sch)) v"
  let ?m = "build_model (relax_targets sc5_sch)"
  have band: "Constr (SumOf [Shift 0 0, Shift 0 1, Shift 0 2, Shift 0 3, Shift 0 4, Shift 0 5, Shift 0 6])
                 GE (C 6) None \<in> set (constraints ?m)"
    by code_simp
  have b01: "Constr (Plus (V (Shift 0 0)) (V (Shift 0 1))) LE (C 1) None \<in> set (constraints ?m)"
    and b23: "Constr (Plus (V (Shift 0 2)) (V (Shift 0 3))) LE (C 1) None \<in> set (constraints ?m)"
    and b45: "Constr (Plus (V (Shift 0 4)) (V (Shift 0 5))) LE (C 1) None \<in> set (constraints ?m)"
    by code_simp+
  have d6: "(Shift 0 6, 0, 1) \<in> set (variables ?m)"
    by code_simp
  from satisfies_holds [OF sat band] satisfies_holds [OF sat b01] satisfies_holds [OF sat b23]
    satisfies_holds [OF sat b45] satisfies_domain [OF sat d6]
  show False by simp
qed

text \<open>
  Claim C1, at the fifth scenario of the specification. The rerun after the failed strict
  solve builds the strict model again: the band 6..8 is posted for both staff, none of the
  constraints "at least one day" is, and the model has no solution, because nobody can work
  more than four of seven days without working two in a row. The model the claim describes
  has one. The two-phase function answers no_solution.
\<close>

theorem relaxation_reposts_band_scenario5:
  "build_model (relax_targets sc5_sch) = build_model sc5_sch
   \<and> target_constraints (relax_targets sc5_sch) =
     [Constr (SumOf [Shift 0 0, Shift 0 1, Shift 0 2, Shift 0 3, Shift 0 4, Shift 0 5, Shift 0 6]) GE (C 6) None,
      Constr (SumOf [Shift 0 0, Shift 0 1, Shift 0 2, Shift 0 3, Shift 0 4, Shift 0 5, Shift 0 6]) LE (C 8) None,
      Constr (SumOf [Shift 1 0, Shift 1 1, Shift 1 2, Shift 1 3, Shift 1 4, Shift 1 5, Shift 1 6]) GE (C 6) None,
      Constr (SumOf [Shift 1 0, Shift 1 1, Shift 1 2, Shift 1 3, Shift 1 4, Shift 1 5, Shift 1 6]) LE (C 8) None]
   \<and> set (target_constraints (relax_targets sc5_sch)) \<subseteq> set (constraints (build_model (relax_targets sc5_sch)))
   \<and> set (relaxed_target_constraints sc5_sch) \<inter> set (constraints (build_model (relax_targets sc5_sch))) = {}
   \<and> (\<forall>v. \<not> satisfies (build_model (relax_targets sc5_sch)) v)
   \<and> satisfies (spec_relaxed_model sc5_sch) alt_val
   \<and> fst (generate_schedule_with_relaxation (check_solver alt_val) (check_solver alt_val) 0 1 sc5_sch (Some 1))
       = NoSolution CouldNotFind"
proof -
  have same: "build_model (relax_targets sc5_sch) = build_model sc5_sch"
    by (rule arg_cong [where f = build_model], rule relax_targets_ident) code_simp
  have posted: "set (target_constraints (relax_targets sc5_sch))
                  \<subseteq> set (constraints (build_model (relax_targets sc5_sch)))"
    by (auto simp: build_model_def)
  have absent: "set (relaxed_target_constraints sc5_sch)
                  \<inter> set (constraints (build_model (relax_targets sc5_sch))) = {}"
    by code_simp
  have spec_ok: "satisfies (spec_relaxed_model sc5_sch) alt_val"
    by code_simp
  have res: "fst (generate_schedule_with_relaxation (check_solver alt_val) (check_solver alt_val) 0 1 sc5_sch (Some 1))
       = NoSolution CouldNotFind"
    by (simp add: generate_schedule_with_relaxation_def generate_schedule_def Let_def
        check_solver_def sc5_infeasible same [symmetric])
  show ?thesis
    using same sc5_band posted absent sc5_infeasible spec_ok res by blast
qed

lemma sound_flaky_solver: "sound (flaky_solver cand bad_seed)"
  by (simp add: sound_def flaky_solver_def check_solver_def)

lemma lazy_satisfies: "satisfies (build_model lazy_sch) alt_val"
  by code_simp

lemma relax_lazy: "relax_targets lazy_sch = lazy_sch"
  by (rule relax_targets_ident) code_simp

lemma relax_neg: "relax_targets neg_sch = lazy_sch"
proof -
  have "staff_members (relax_targets neg_sch) = staff_members lazy_sch"
    by code_simp
  then show ?thesis
    by (simp add: relax_targets_def neg_sch_def lazy_sch_def OnCallScheduler_init_def Let_def
        role_indices_def neg_staff_def lazy_staff_def)
qed

lemma neg_infeasible: "\<not> satisfies (build_model neg_sch) v"
proof
  assume sat: "satisfies (build_model neg_sch) v"
  have band: "Constr (SumOf [Shift 2 0, Shift 2 1, Shift 2 2, Shift 2 3, Shift 2 4, Shift 2 5, Shift 2 6])
                 LE (C (- 4)) None \<in> set (constraints (build_model neg_sch))"
    by code_simp
  have dom: "(Shift 2 0, 0, 1) \<in> set (variables (build_model neg_sch))"
    "(Shift 2 1, 0, 1) \<in> set (variables (build_model neg_sch))"
    "(Shift 2 2, 0, 1) \<in> set (variables (build_model neg_sch))"
    "(Shift 2 3, 0, 1) \<in> set (variables (build_model neg_sch))"
    "(Shift 2 4, 0, 1) \<in> set (variables (build_model neg_sch))"
    "(Shift 2 5, 0, 1) \<in> set (variables (build_model neg_sch))"
    "(Shift 2 6, 0, 1) \<in> set (variables (build_model neg_sch))"
    by code_simp+
  from satisfies_holds [OF sat band] dom [THEN satisfies_domain [OF sat]]
  show False by simp
qed

lemma lazy_success:
  assumes "solve (build_model lazy_sch) (solver_seed now seed) = (FEASIBLE, alt_val)"
  shows "generate_schedule solve now lazy_sch seed =
           Success 739222 739228 (build_schedule lazy_sch alt_val) (build_assignments lazy_sch alt_val)"
  using generate_schedule_init_ok [of solve lazy_staff 739222 7 now seed FEASIBLE alt_val] assms
  by (simp add: lazy_sch_def)

text \<open>
  Claim C6, on two rosters. With targets 4, 3 and 1 and no seed, a first solve that ends
  without an answer and a second that returns the alternation of the first two staff give
  a success of the relaxed phase in which the third staff member works no day: the band of
  target 1 is 0..2. With the third target below 1 the strict model has no solution at all,
  the relaxation turns the target into 1, and the same result is a success of the relaxed
  phase for the solver that proposes the alternation.
\<close>

theorem relaxed_success_with_idle_staff:
  "satisfies (build_model (relax_targets lazy_sch)) alt_val
   \<and> generate_schedule (flaky_solver alt_val 5) 5 lazy_sch None = NoSolution CouldNotFind
   \<and> fst (generate_schedule_with_relaxation (flaky_solver alt_val 5) (flaky_solver alt_val 5) 5 6 lazy_sch None)
       = Success 739222 739228 (build_schedule lazy_sch alt_val) (build_assignments lazy_sch alt_val)
   \<and> map (\<lambda>e. (fst e, target (snd e), actual (snd e))) (build_assignments lazy_sch alt_val)
       = [(''Smith'', 4, 4), (''Brown'', 3, 3), (''Jones'', 1, 0)]
   \<and> (\<forall>v. \<not> satisfies (build_model neg_sch) v)
   \<and> generate_schedule (check_solver alt_val) 0 neg_sch (Some 1) = NoSolution CouldNotFind
   \<and> fst (generate_schedule_with_relaxation (check_solver alt_val) (check_solver alt_val) 0 0 neg_sch (Some 1))
       = Success 739222 739228 (build_schedule lazy_sch alt_val) (build_assignments lazy_sch alt_val)"
proof -
  have sat: "satisfies (build_model (relax_targets lazy_sch)) alt_val"
    using lazy_satisfies by (simp add: relax_lazy)
  have a1: "generate_schedule (flaky_solver alt_val 5) 5 lazy_sch None = NoSolution CouldNotFind"
    by (simp add: generate_schedule_def solver_seed_def flaky_solver_def)
  have "flaky_solver alt_val 5 (build_model lazy_sch) (solver_seed 6 None) = (FEASIBLE, alt_val)"
    using lazy_satisfies by (simp add: flaky_solver_def solver_seed_def check_solver_def)
  then have "generate_schedule (flaky_solver alt_val 5) 6 lazy_sch None =
      Success 739222 739228 (build_schedule lazy_sch alt_val) (build_assignments lazy_sch alt_val)"
    by (rule lazy_success)
  then have a2: "fst (generate_schedule_with_relaxation (flaky_solver alt_val 5) (flaky_solver alt_val 5) 5 6 lazy_sch None)
       = Success 739222 739228 (build_schedule lazy_sch alt_val) (build_assignments lazy_sch alt_val)"
    by (simp add: generate_schedule_with_relaxation_def Let_def a1 relax_lazy)
  have tallies: "map (\<lambda>e. (fst e, target (snd e), actual (snd e))) (build_assignments lazy_sch alt_val)
       = [(''Smith'', 4, 4), (''Brown'', 3, 3), (''Jones'', 1, 0)]"
    by code_simp
  have b1: "generate_schedule (check_solver alt_val) 0 neg_sch (Some 1) = NoSolution CouldNotFind"
    by (simp add: generate_schedule_def check_solver_def neg_infeasible)
  have "check_solver alt_val (build_model lazy_sch) (solver_seed 0 (Some 1)) = (FEASIBLE, alt_val)"
    using lazy_satisfies by (simp add: check_solver_def)
  then have "generate_schedule (check_solver alt_val) 0 lazy_sch (Some 1) =
      Success 739222 739228 (build_schedule lazy_sch alt_val) (build_assignments lazy_sch alt_val)"
    by (rule lazy_success)
  then have b2: "fst (generate_schedule_with_relaxation (check_solver alt_val) (check_solver alt_val) 0 0 neg_sch (Some 1))
       = Success 739222 739228 (build_schedule lazy_sch alt_val) (build_assignments lazy_sch alt_val)"
    by (simp add: generate_schedule_with_relaxation_def Let_def b1 relax_neg)
  show ?thesis
    using sat a1 a2 tallies neg_infeasible b1 b2 by blast
qed

section \<open>What the relaxation pass solves\<close>

lemma relaxed_band:
  "target_constraints (relax_targets sch) =
     concat (map (\<lambda>s. [Constr (total_shifts sch s) GE
                           (C (max 1 (target_shifts (staff_members sch ! s)) - 1)) None,
                        Constr (total_shifts sch s) LE
                           (C (max 1 (target_shifts (staff_members sch ! s)) + 1)) None])
                 [0..<num_staff sch])"
proof -
  have n: "num_staff (relax_targets sch) = num_staff sch"
    by (simp add: relax_targets_def num_staff_def)
  have t: "total_shifts (relax_targets sch) = total_shifts sch"
    by (intro ext) (simp add: total_shifts_def day_range_def relax_targets_def)
  show ?thesis
    unfolding target_constraints_def n t
    by (rule arg_cong [where f = concat], rule map_cong)
       (simp_all add: relax_targets_def num_staff_def Let_def)
qed

lemma two_phase_result:
  "fst (generate_schedule_with_relaxation solve1 solve2 now1 now2 sch seed) =
     (if is_success (generate_schedule solve1 now1 sch seed)
      then generate_schedule solve1 now1 sch seed
      else generate_schedule solve2 now2 (relax_targets sch) seed)"
  by (simp add: generate_schedule_with_relaxation_def Let_def)

lemma lazy_strict_unknown:
  "generate_schedule (flaky_solver alt_val 5) 5 lazy_sch None = NoSolution CouldNotFind"
  by (simp add: generate_schedule_def solver_seed_def flaky_solver_def)

lemma lazy_second_run:
  "generate_schedule (flaky_solver alt_val 5) 6 lazy_sch None =
     Success 739222 739228 (build_schedule lazy_sch alt_val) (build_assignments lazy_sch alt_val)"
proof -
  have "flaky_solver alt_val 5 (build_model lazy_sch) (solver_seed 6 None) = (FEASIBLE, alt_val)"
    using lazy_satisfies by (simp add: flaky_solver_def solver_seed_def check_solver_def)
  then show ?thesis by (rule lazy_success)
qed

lemma neg_strict_infeasible:
  "generate_schedule (check_solver alt_val) 0 neg_sch (Some 1) = NoSolution CouldNotFind"
  by (simp add: generate_schedule_def check_solver_def neg_infeasible)

lemma neg_second_run:
  "generate_schedule (check_solver alt_val) 0 (relax_targets neg_sch) (Some 1) =
     Success 739222 739228 (build_schedule lazy_sch alt_val) (build_assignments lazy_sch alt_val)"
proof -
  have "check_solver alt_val (build_model lazy_sch) (solver_seed 0 (Some 1)) = (FEASIBLE, alt_val)"
    using lazy_satisfies by (simp add: check_solver_def)
  then show ?thesis unfolding relax_neg by (rule lazy_success)
qed

text \<open>
  Claim C10 fails as stated, for an input with a target below 1 and for a call without a
  seed. With the third target at -5 the relaxed attempt builds another model than the
  strict one, and the two-phase function succeeds where the strict attempt alone answers
  no_solution. With all targets at least 1 and no seed the two solves get different seeds,
  and a solver that gives up on the first and answers on the second makes the two-phase
  function succeed where the strict attempt answered no_solution.
\<close>

theorem relaxed_attempt_differs_from_strict:
  "build_model (relax_targets neg_sch) \<noteq> build_model neg_sch
   \<and> generate_schedule (check_solver alt_val) 0 neg_sch (Some 1) = NoSolution CouldNotFind
   \<and> is_success (fst (generate_schedule_with_relaxation (check_solver alt_val) (check_solver alt_val)
                          0 0 neg_sch (Some 1)))
   \<and> list_all (\<lambda>st. 1 \<le> target_shifts st) (staff_members lazy_sch)
   \<and> generate_schedule (flaky_solver alt_val 5) 5 lazy_sch None = NoSolution CouldNotFind
   \<and> is_success (fst (generate_schedule_with_relaxation (flaky_solver alt_val 5) (flaky_solver alt_val 5)
                          5 6 lazy_sch None))"
proof -
  have "satisfies (build_model (relax_targets neg_sch)) alt_val"
    using lazy_satisfies by (simp add: relax_neg)
  then have differ: "build_model (relax_targets neg_sch) \<noteq> build_model neg_sch"
    using neg_infeasible [of alt_val] by auto
  have neg: "is_success (fst (generate_schedule_with_relaxation (check_solver alt_val) (check_solver alt_val)
                          0 0 neg_sch (Some 1)))"
    by (simp add: two_phase_result neg_strict_infeasible neg_second_run)
  have targets: "list_all (\<lambda>st. 1 \<le> target_shifts st) (staff_members lazy_sch)"
    by code_simp
  have lazy: "is_success (fst (generate_schedule_with_relaxation (flaky_solver alt_val 5) (flaky_solver alt_val 5)
                          5 6 lazy_sch None))"
    by (simp add: two_phase_result lazy_strict_unknown relax_lazy lazy_second_run)
  show ?thesis
    by (intro conjI differ neg_strict_infeasible neg targets lazy_strict_unknown lazy)
qed

text \<open>
  Claim C10, amended. For every input, the band the relaxed attempt posts for a staff
  member runs from \<^verbatim>\<open>max(1, target_shifts) - 1\<close> to \<^verbatim>\<open>max(1, target_shifts) + 1\<close>.
  When every target is at least 1, \<^verbatim>\<open>max(1, target_shifts)\<close> is the target, and the
  relaxed attempt builds exactly the model of the strict attempt: it is a second run of the
  solver on that model, and the two-phase function returns the strict result when that is a
  success and the result of the second run otherwise. With a supplied seed the second run
  gets the seed of the first, and if the solver answers the second run as it answered the
  first, the two-phase function returns what the strict attempt alone returns, no_solution
  exactly when the strict attempt yields no_solution.
\<close>

theorem relaxation_rebuilds_strict_model:
  "target_constraints (relax_targets sch) =
     concat (map (\<lambda>s. [Constr (total_shifts sch s) GE
                           (C (max 1 (target_shifts (staff_members sch ! s)) - 1)) None,
                        Constr (total_shifts sch s) LE
                           (C (max 1 (target_shifts (staff_members sch ! s)) + 1)) None])
                 [0..<num_staff sch])
   \<and> (list_all (\<lambda>st. 1 \<le> target_shifts st) (staff_members sch) \<longrightarrow>
         build_model (relax_targets sch) = build_model sch
       \<and> fst (generate_schedule_with_relaxation solve1 solve2 now1 now2 sch seed) =
           (if is_success (generate_schedule solve1 now1 sch seed)
            then generate_schedule solve1 now1 sch seed
            else generate_schedule solve2 now2 sch seed)
       \<and> solver_seed now2 (Some k) = solver_seed now1 (Some k)
       \<and> fst (generate_schedule_with_relaxation solve solve now1 now2 sch (Some k))
           = generate_schedule solve now1 sch (Some k))"
proof (intro conjI impI)
  show "target_constraints (relax_targets sch) =
     concat (map (\<lambda>s. [Constr (total_shifts sch s) GE
                           (C (max 1 (target_shifts (staff_members sch ! s)) - 1)) None,
                        Constr (total_shifts sch s) LE
                           (C (max 1 (target_shifts (staff_members sch ! s)) + 1)) None])
                 [0..<num_staff sch])"
    by (rule relaxed_band)
next
  assume "list_all (\<lambda>st. 1 \<le> target_shifts st) (staff_members sch)"
  then have same: "relax_targets sch = sch"
    by (rule relax_targets_ident)
  show "build_model (relax_targets sch) = build_model sch"
    by (simp add: same)
  show "fst (generate_schedule_with_relaxation solve1 solve2 now1 now2 sch seed) =
           (if is_success (generate_schedule solve1 now1 sch seed)
            then generate_schedule solve1 now1 sch seed
            else generate_schedule solve2 now2 sch seed)"
    by (simp add: two_phase_result same)
  show "solver_seed now2 (Some k) = solver_seed now1 (Some k)"
    by (simp add: solver_seed_def)
  have "generate_schedule solve now2 sch (Some k) = generate_schedule solve now1 sch (Some k)"
    by (simp add: generate_schedule_def solver_seed_def)
  then show "fst (generate_schedule_with_relaxation solve solve now1 now2 sch (Some k))
           = generate_schedule solve now1 sch (Some k)"
    by (simp add: two_phase_result same)
qed

theorem relaxation_rebuilds_strict_model_witness:
  "target_constraints (relax_targets neg_sch) =
     [Constr (SumOf [Shift 0 0, Shift 0 1, Shift 0 2, Shift 0 3, Shift 0 4, Shift 0 5, Shift 0 6]) GE (C 3) None,
      Constr (SumOf [Shift 0 0, Shift 0 1, Shift 0 2, Shift 0 3, Shift 0 4, Shift 0 5, Shift 0 6]) LE (C 5) None,
      Constr (SumOf [Shift 1 0, Shift 1 1, Shift 1 2, Shift 1 3, Shift 1 4, Shift 1 5, Shift 1 6]) GE (C 2) None,
      Constr (SumOf [Shift 1 0, Shift 1 1, Shift 1 2, Shift 1 3, Shift 1 4, Shift 1 5, Shift 1 6]) LE (C 4) None,
      Constr (SumOf [Shift 2 0, Shift 2 1, Shift 2 2, Shift 2 3, Shift 2 4, Shift 2 5, Shift 2 6]) GE (C 0) None,
      Constr (SumOf [Shift 2 0, Shift 2 1, Shift 2 2, Shift 2 3, Shift 2 4, Shift 2 5, Shift 2 6]) LE (C 2) None]
   \<and> list_all (\<lambda>st. 1 \<le> target_shifts st) (staff_members lazy_sch)
   \<and> build_model (relax_targets lazy_sch) = build_model lazy_sch
   \<and> generate_schedule (flaky_solver alt_val 5) 5 lazy_sch None = NoSolution CouldNotFind
   \<and> fst (generate_schedule_with_relaxation (flaky_solver alt_val 5) (check_solver alt_val) 5 6 lazy_sch None)
       = generate_schedule (check_solver alt_val) 6 lazy_sch None
   \<and> is_success (generate_schedule (check_solver alt_val) 6 lazy_sch None)
   \<and> fst (generate_schedule_with_relaxation (flaky_solver alt_val 5) (flaky_solver alt_val 5) 0 1 lazy_sch (Some 5))
       = NoSolution CouldNotFind"
proof -
  have targets: "list_all (\<lambda>st. 1 \<le> target_shifts st) (staff_members lazy_sch)"
    by code_simp
  have bands: "concat (map (\<lambda>s. [Constr (total_shifts neg_sch s) GE
                           (C (max 1 (target_shifts (staff_members neg_sch ! s)) - 1)) None,
                        Constr (total_shifts neg_sch s) LE
                           (C (max 1 (target_shifts (staff_members neg_sch ! s)) + 1)) None])
                 [0..<num_staff neg_sch]) =
     [Constr (SumOf [Shift 0 0, Shift 0 1, Shift 0 2, Shift 0 3, Shift 0 4, Shift 0 5, Shift 0 6]) GE (C 3) None,
      Constr (SumOf [Shift 0 0, Shift 0 1, Shift 0 2, Shift 0 3, Shift 0 4, Shift 0 5, Shift 0 6]) LE (C 5) None,
      Constr (SumOf [Shift 1 0, Shift 1 1, Shift 1 2, Shift 1 3, Shift 1 4, Shift 1 5, Shift 1 6]) GE (C 2) None,
      Constr (SumOf [Shift 1 0, Shift 1 1, Shift 1 2, Shift 1 3, Shift 1 4, Shift 1 5, Shift 1 6]) LE (C 4) None,
      Constr (SumOf [Shift 2 0, Shift 2 1, Shift 2 2, Shift 2 3, Shift 2 4, Shift 2 5, Shift 2 6]) GE (C 0) None,
      Constr (SumOf [Shift 2 0, Shift 2 1, Shift 2 2, Shift 2 3, Shift 2 4, Shift 2 5, Shift 2 6]) LE (C 2) None]"
    by code_simp
  have second: "is_success (generate_schedule (check_solver alt_val) 6 lazy_sch None)"
  proof -
    have "check_solver alt_val (build_model lazy_sch) (solver_seed 6 None) = (FEASIBLE, alt_val)"
      using lazy_satisfies by (simp add: check_solver_def)
    then show ?thesis by (simp add: lazy_success)
  qed
  have strict5: "generate_schedule (flaky_solver alt_val 5) 0 lazy_sch (Some 5) = NoSolution CouldNotFind"
    by (simp add: generate_schedule_def solver_seed_def flaky_solver_def)
  note band = relaxation_rebuilds_strict_model [of neg_sch, THEN conjunct1]
  note two_runs = relaxation_rebuilds_strict_model
      [where sch = lazy_sch and ?solve1.0 = "flaky_solver alt_val 5" and ?solve2.0 = "check_solver alt_val"
         and ?now1.0 = 5 and ?now2.0 = 6 and seed = None,
       THEN conjunct2, rule_format, OF targets]
  note one_solver = relaxation_rebuilds_strict_model
      [where sch = lazy_sch and solve = "flaky_solver alt_val 5" and ?now1.0 = 0 and ?now2.0 = 1 and k = 5,
       THEN conjunct2, rule_format, OF targets]
  note model = two_runs [THEN conjunct1]
  note two = two_runs [THEN conjunct2, THEN conjunct1]
  note det = one_solver [THEN conjunct2, THEN conjunct2, THEN conjunct2]
  have a: "target_constraints (relax_targets neg_sch) =
     [Constr (SumOf [Shift 0 0, Shift 0 1, Shift 0 2, Shift 0 3, Shift 0 4, Shift 0 5, Shift 0 6]) GE (C 3) None,
      Constr (SumOf [Shift 0 0, Shift 0 1, Shift 0 2, Shift 0 3, Shift 0 4, Shift 0 5, Shift 0 6]) LE (C 5) None,
      Constr (SumOf [Shift 1 0, Shift 1 1, Shift 1 2, Shift 1 3, Shift 1 4, Shift 1 5, Shift 1 6]) GE (C 2) None,
      Constr (SumOf [Shift 1 0, Shift 1 1, Shift 1 2, Shift 1 3, Shift 1 4, Shift 1 5, Shift 1 6]) LE (C 4) None,
      Constr (SumOf [Shift 2 0, Shift 2 1, Shift 2 2, Shift 2 3, Shift 2 4, Shift 2 5, Shift 2 6]) GE (C 0) None,
      Constr (SumOf [Shift 2 0, Shift 2 1, Shift 2 2, Shift 2 3, Shift 2 4, Shift 2 5, Shift 2 6]) LE (C 2) None]"
    using band bands by simp
  have b: "fst (generate_schedule_with_relaxation (flaky_solver alt_val 5) (check_solver alt_val) 5 6 lazy_sch None)
       = generate_schedule (check_solver alt_val) 6 lazy_sch None"
    using two by (simp add: lazy_strict_unknown)
  have c: "fst (generate_schedule_with_relaxation (flaky_solver alt_val 5) (flaky_solver alt_val 5) 0 1 lazy_sch (Some 5))
       = NoSolution CouldNotFind"
    using det by (simp add: strict5)
  show ?thesis
    by (intro conjI a targets model lazy_strict_unknown b second c)
qed


end
